theory Spec2Isabelle
  imports Complex_Main "HOL-Library.Log_Nat"
begin

section \<open>Data model\<close>

text \<open>
  The tables of \<^verbatim>\<open>20250607002332_orange_glitter.sql\<close>. A uuid is a natural number;
  \<^verbatim>\<open>integer\<close> columns are \<open>int\<close>; a nullable \<^verbatim>\<open>text\<close> column is a
  \<open>string option\<close>. Only the columns that the reservation workflow reads or writes
  are kept: title, description, tier, images and the timestamps play no part in it.
  \<^verbatim>\<open>detailed_location\<close> is the column that the sample data of
  \<^verbatim>\<open>20250612233846_royal_mountain.sql\<close> and the detail page use.
\<close>

type_synonym uuid = nat

datatype user_role = role_student | role_landlord

datatype payment_status = pending | paid | refunded

record users_row =
  u_id :: uuid
  u_name :: string
  u_email :: string
  u_role :: user_role
  u_phone :: "string option"

record property =
  p_id :: uuid
  location :: string
  detailed_location :: string
  rooms_available :: int
  total_rooms :: int
  price :: int
  reservation_fee :: int
  is_verified :: bool
  video_url :: "string option"
  landlord_id :: uuid

record reservation =
  r_id :: uuid
  student_id :: uuid
  property_id :: uuid
  r_payment_status :: payment_status
  unlock_granted :: bool

record db =
  users :: "users_row list"
  properties :: "property list"
  reservations :: "reservation list"

section \<open>JavaScript numbers\<close>

text \<open>
  A JavaScript number is an IEEE 754 binary64 value: a finite double, one of the two
  infinities, or \<^verbatim>\<open>NaN\<close>. A finite double is modelled by the rational it denotes
  (the sign of zero is dropped: where a zero is a divisor below it is the \<^verbatim>\<open>+0\<close> of
  an integer). Every arithmetic operation returns the exact result rounded to the
  nearest double, a tie to the even significand.
\<close>

datatype number = Finite rat | Infinity | Minus_Infinity | NaN

text \<open>
  The binary exponent of a positive rational: \<open>2 powi binade x \<le> x < 2 powi (binade x + 1)\<close>.
\<close>

definition binade :: "rat \<Rightarrow> int" where
  "binade x = (if 1 \<le> x then bitlen \<lfloor>x\<rfloor> - 1 else - bitlen (\<lceil>1 / x\<rceil> - 1))"

definition round_half_even :: "rat \<Rightarrow> int" where
  "round_half_even r =
     (let f = \<lfloor>r\<rfloor>; d = r - of_int f
      in if d < 1 / 2 then f else if 1 / 2 < d then f + 1 else if even f then f else f + 1)"

text \<open>
  The nearest double of a rational, overflow apart: the doubles around \<open>x\<close> are the
  multiples of \<open>2 powi (e - 52)\<close>, where \<open>e\<close> is the exponent of \<open>x\<close> and at least
  \<open>- 1022\<close> (below it the doubles are subnormal and evenly spaced). A result of
  magnitude \<open>2 ^ 1024\<close> or more is an infinity.
\<close>

definition round_double :: "rat \<Rightarrow> rat" where
  "round_double x =
     (if x = 0 then 0
      else let q = 2 powi (max (binade \<bar>x\<bar>) (- 1022) - 52)
           in sgn x * (of_int (round_half_even (\<bar>x\<bar> / q)) * q))"

definition to_number :: "rat \<Rightarrow> number" where
  "to_number x =
     (let y = round_double x
      in if 2 ^ 1024 \<le> y then Infinity
         else if y \<le> - (2 ^ 1024) then Minus_Infinity
         else Finite y)"

text \<open>
  An integer that reaches the code (a column of the table, or a form field read by
  \<^verbatim>\<open>parseInt\<close> or \<^verbatim>\<open>Number\<close>) is the nearest double.
\<close>

definition number_of_int :: "int \<Rightarrow> number" where
  "number_of_int n = to_number (of_int n)"

text \<open>The operators \<^verbatim>\<open>/\<close> and \<^verbatim>\<open>*\<close>.\<close>

fun number_divide :: "number \<Rightarrow> number \<Rightarrow> number" where
  "number_divide (Finite a) (Finite b) =
     (if b = 0 then (if a = 0 then NaN else if 0 < a then Infinity else Minus_Infinity)
      else to_number (a / b))"
| "number_divide (Finite a) Infinity = Finite 0"
| "number_divide (Finite a) Minus_Infinity = Finite 0"
| "number_divide Infinity (Finite b) = (if b < 0 then Minus_Infinity else Infinity)"
| "number_divide Minus_Infinity (Finite b) = (if b < 0 then Infinity else Minus_Infinity)"
| "number_divide a b = NaN"

fun number_times :: "number \<Rightarrow> number \<Rightarrow> number" where
  "number_times (Finite a) (Finite b) = to_number (a * b)"
| "number_times Infinity (Finite b) =
     (if b = 0 then NaN else if 0 < b then Infinity else Minus_Infinity)"
| "number_times Minus_Infinity (Finite b) =
     (if b = 0 then NaN else if 0 < b then Minus_Infinity else Infinity)"
| "number_times (Finite a) Infinity =
     (if a = 0 then NaN else if 0 < a then Infinity else Minus_Infinity)"
| "number_times (Finite a) Minus_Infinity =
     (if a = 0 then NaN else if 0 < a then Minus_Infinity else Infinity)"
| "number_times Infinity Infinity = Infinity"
| "number_times Minus_Infinity Minus_Infinity = Infinity"
| "number_times Infinity Minus_Infinity = Minus_Infinity"
| "number_times Minus_Infinity Infinity = Minus_Infinity"
| "number_times a b = NaN"

text \<open>
  \<^verbatim>\<open>Math.round\<close> is exact: the nearest integer, a tie towards plus infinity; an
  infinity or \<^verbatim>\<open>NaN\<close> is returned as it is. \<^verbatim>\<open>!x\<close> holds of zero and of
  \<^verbatim>\<open>NaN\<close>.
\<close>

fun Math_round :: "number \<Rightarrow> number" where
  "Math_round (Finite y) = Finite (of_int \<lfloor>y + 1 / 2\<rfloor>)"
| "Math_round x = x"

fun falsy :: "number \<Rightarrow> bool" where
  "falsy (Finite y) = (y = 0)"
| "falsy NaN = True"
| "falsy x = False"

text \<open>
  The integer that a number is, for a number that \<^verbatim>\<open>Math.round\<close> returned: \<open>None\<close>
  for an infinity and for \<^verbatim>\<open>NaN\<close>, which JSON sends as \<^verbatim>\<open>null\<close>.
\<close>

fun integer_value :: "number \<Rightarrow> int option" where
  "integer_value (Finite y) = Some \<lfloor>y\<rfloor>"
| "integer_value x = None"

section \<open>Fee calculator\<close>

text \<open>
  \<^verbatim>\<open>calculateReservationFee\<close> (utils/supabase, \<^verbatim>\<open>HomePage.tsx\<close> lines 334-337):
  \<^verbatim>\<open>
  const individualRent = totalRent / totalSpaces
  return Math.round(individualRent * 0.01)
  \<close>
  The division and the multiplication are those of doubles, and \<^verbatim>\<open>0.01\<close> is the
  double nearest to one hundredth. A division by zero gives \<^verbatim>\<open>Infinity\<close> or
  \<^verbatim>\<open>NaN\<close>, which \<^verbatim>\<open>Math.round\<close> returns as it is: the result is then \<open>None\<close>.
\<close>

definition calculateReservationFee :: "int \<Rightarrow> int \<Rightarrow> int option" where
  "calculateReservationFee totalRent totalSpaces =
     (let individualRent = number_divide (number_of_int totalRent) (number_of_int totalSpaces)
      in integer_value (Math_round (number_times individualRent (to_number (1 / 100)))))"

text \<open>
  The call sites. \<^verbatim>\<open>PropertyCard.tsx\<close> line 59 shows the fee on a listing card,
  the landlord dashboard (\<^verbatim>\<open>part_002\<close> lines 243-245) shows it while a listing is
  edited, and the detail page (\<^verbatim>\<open>part_003\<close> line 288) computes the amount that the
  payment button charges. \<^verbatim>\<open>MultiStepPropertyForm.tsx\<close> lines 65-71 has a copy of
  the formula of its own, \<^verbatim>\<open>calcReservationFee\<close>, which returns 0 when the price or
  the room count is 0 or not a number. The card and the detail page read \<^verbatim>\<open>price\<close>
  and \<^verbatim>\<open>total_rooms\<close> from the table, whose \<^verbatim>\<open>integer\<close> columns hold values below
  \<open>2 ^ 31\<close>; the two forms read them from input fields that set no upper limit
  (\<^verbatim>\<open>part_002\<close> lines 595-600).
\<close>

definition PropertyCard_dynamicReservationFee :: "property \<Rightarrow> int option" where
  "PropertyCard_dynamicReservationFee p = calculateReservationFee (price p) (total_rooms p)"

definition LandlordDashboard_dynamicReservationFee :: "int \<Rightarrow> int \<Rightarrow> int option" where
  "LandlordDashboard_dynamicReservationFee form_price form_total_rooms =
     (if form_price > 0 \<and> form_total_rooms > 0
      then calculateReservationFee form_price form_total_rooms
      else Some 0)"

definition PropertyDetailPage_dynamicReservationFee :: "property \<Rightarrow> int option" where
  "PropertyDetailPage_dynamicReservationFee p = calculateReservationFee (price p) (total_rooms p)"

definition calcReservationFee :: "int \<Rightarrow> int \<Rightarrow> int option" where
  "calcReservationFee form_price form_total_rooms =
     (let price = number_of_int form_price;
          total = number_of_int form_total_rooms
      in if falsy price \<or> falsy total then Some 0
         else let individual = number_divide price total
              in integer_value (Math_round (number_times individual (to_number (1 / 100)))))"

section \<open>The database: constraints, row-level security, triggers\<close>

text \<open>
  The database is PostgreSQL behind the Supabase client. A statement either succeeds
  or raises an error and leaves the database as it was; a trigger runs inside the
  statement that fired it, so an error of the trigger undoes the statement.
  \<open>request_failed\<close> stands for a request that never reached the database, and
  \<open>undefined_column\<close> for the answer to a request that names a column the table does
  not have (PostgREST's \<^verbatim>\<open>PGRST204\<close>).
\<close>

datatype db_error =
  unique_violation | check_violation | foreign_key_violation | not_null_violation
  | rls_violation | undefined_column | request_failed

text \<open>
  The \<^verbatim>\<open>CHECK\<close> constraints of \<^verbatim>\<open>properties\<close>
  (\<^verbatim>\<open>orange_glitter.sql\<close> lines 77-79).
\<close>

definition valid_room_count :: "property \<Rightarrow> bool" where
  "valid_room_count p = (rooms_available p \<le> total_rooms p \<and> rooms_available p \<ge> 0)"

definition valid_price :: "property \<Rightarrow> bool" where
  "valid_price p = (price p > 0)"

definition valid_reservation_fee :: "property \<Rightarrow> bool" where
  "valid_reservation_fee p = (reservation_fee p > 0)"

definition properties_checks :: "property \<Rightarrow> bool" where
  "properties_checks p = (valid_room_count p \<and> valid_price p \<and> valid_reservation_fee p)"

text \<open>
  Row-level security is enabled on the three tables (lines 94-96). The first argument
  of a policy is \<^verbatim>\<open>auth.uid()\<close>, the principal of the session that sends the
  statement.

  \<^item> \<^verbatim>\<open>properties\<close>, \<^verbatim>\<open>SELECT\<close>: "Anyone can read all properties",
    \<^verbatim>\<open>USING (true)\<close> (\<^verbatim>\<open>royal_mountain.sql\<close> lines 19-23).
  \<^item> \<^verbatim>\<open>properties\<close>, \<^verbatim>\<open>UPDATE\<close>: "Landlords can update own properties"
    (lines 136-140) and "Landlords can manage own properties"
    (\<^verbatim>\<open>royal_mountain.sql\<close> lines 26-31), both
    \<^verbatim>\<open>USING (landlord_id = auth.uid())\<close>. No other policy admits an update, so an
    \<^verbatim>\<open>UPDATE\<close> skips every row that fails this test, without an error.
  \<^item> \<^verbatim>\<open>users\<close>, \<^verbatim>\<open>SELECT\<close>: "Users can read profiles", \<^verbatim>\<open>USING (true)\<close>
    for authenticated principals (\<^verbatim>\<open>royal_mountain.sql\<close> lines 35-39); a session
    without a user is \<open>None\<close>.
  \<^item> \<^verbatim>\<open>reservations\<close>: select, insert and update of the rows with
    \<^verbatim>\<open>student_id = auth.uid()\<close> (lines 155-165, \<^verbatim>\<open>royal_mountain.sql\<close> 43-47).

  The two trigger functions are declared without \<^verbatim>\<open>SECURITY DEFINER\<close>, so their
  statements run for the principal whose statement fired the trigger and pass through
  the same policies.
\<close>

definition properties_select_policy :: "uuid option \<Rightarrow> property \<Rightarrow> bool" where
  "properties_select_policy auth p = True"

definition properties_update_policy :: "uuid \<Rightarrow> property \<Rightarrow> bool" where
  "properties_update_policy auth_uid p = (landlord_id p = auth_uid)"

definition users_select_policy :: "uuid option \<Rightarrow> users_row \<Rightarrow> bool" where
  "users_select_policy auth u = (auth \<noteq> None)"

definition reservations_select_policy :: "uuid \<Rightarrow> reservation \<Rightarrow> bool" where
  "reservations_select_policy auth_uid r = (student_id r = auth_uid)"

definition reservations_insert_policy :: "uuid \<Rightarrow> reservation \<Rightarrow> bool" where
  "reservations_insert_policy auth_uid r = (student_id r = auth_uid)"

definition reservations_update_policy :: "uuid \<Rightarrow> reservation \<Rightarrow> bool" where
  "reservations_update_policy auth_uid r = (student_id r = auth_uid)"

text \<open>
  \<^verbatim>\<open>UPDATE properties SET ... WHERE ...\<close> sent by \<open>auth_uid\<close>: the rows that match
  the \<^verbatim>\<open>WHERE\<close> clause and pass the update policy get the new columns; if a new
  row breaks a \<^verbatim>\<open>CHECK\<close> constraint the statement fails. None of the statements
  below changes \<^verbatim>\<open>landlord_id\<close> to another principal, so the policies'
  \<^verbatim>\<open>WITH CHECK\<close> on the new row holds whenever \<^verbatim>\<open>USING\<close> did.
\<close>

definition update_properties ::
  "uuid \<Rightarrow> (property \<Rightarrow> bool) \<Rightarrow> (property \<Rightarrow> property) \<Rightarrow> property list
     \<Rightarrow> db_error + property list" where
  "update_properties auth_uid wh set_cols ps =
     (let ps' = map (\<lambda>p. if wh p \<and> properties_update_policy auth_uid p then set_cols p else p) ps
      in if list_all (\<lambda>p. if wh p \<and> properties_update_policy auth_uid p
                           then properties_checks (set_cols p) else True) ps
         then Inr ps' else Inl check_violation)"

text \<open>
  \<^verbatim>\<open>handle_reservation_insert\<close> (lines 175-186), fired after each insert:
  \<^verbatim>\<open>
  IF NEW.payment_status = 'paid' AND NEW.unlock_granted = true THEN
    UPDATE properties SET rooms_available = rooms_available - 1
    WHERE id = NEW.property_id AND rooms_available > 0;
  END IF;
  \<close>
\<close>

definition handle_reservation_insert ::
  "uuid \<Rightarrow> reservation \<Rightarrow> property list \<Rightarrow> db_error + property list" where
  "handle_reservation_insert auth_uid NEW ps =
     (if r_payment_status NEW = paid \<and> unlock_granted NEW = True
      then update_properties auth_uid
             (\<lambda>p. p_id p = property_id NEW \<and> rooms_available p > 0)
             (\<lambda>p. p\<lparr>rooms_available := rooms_available p - 1\<rparr>) ps
      else Inr ps)"

text \<open>
  \<^verbatim>\<open>handle_reservation_update\<close> (lines 195-206), fired after each updated row:
  \<^verbatim>\<open>
  IF OLD.payment_status = 'paid' AND NEW.payment_status = 'refunded' THEN
    UPDATE properties SET rooms_available = rooms_available + 1
    WHERE id = NEW.property_id;
  END IF;
  \<close>
\<close>

definition handle_reservation_update ::
  "uuid \<Rightarrow> reservation \<Rightarrow> reservation \<Rightarrow> property list \<Rightarrow> db_error + property list" where
  "handle_reservation_update auth_uid OLD NEW ps =
     (if r_payment_status OLD = paid \<and> r_payment_status NEW = refunded
      then update_properties auth_uid
             (\<lambda>p. p_id p = property_id NEW)
             (\<lambda>p. p\<lparr>rooms_available := rooms_available p + 1\<rparr>) ps
      else Inr ps)"

text \<open>
  \<^verbatim>\<open>INSERT INTO reservations\<close> (table at lines 83-91): the id defaults to a fresh
  uuid, here one above every id of the table; the row must pass the insert policy,
  both foreign keys and \<^verbatim>\<open>UNIQUE(student_id, property_id)\<close>; then the insert
  trigger runs.
\<close>

definition gen_random_uuid :: "reservation list \<Rightarrow> uuid" where
  "gen_random_uuid rs = Suc (fold max (map r_id rs) 0)"

definition insert_reservation ::
  "uuid \<Rightarrow> uuid \<Rightarrow> uuid \<Rightarrow> payment_status \<Rightarrow> bool \<Rightarrow> db \<Rightarrow> db_error + db" where
  "insert_reservation auth_uid sid pid st ug d =
     (let NEW = \<lparr>r_id = gen_random_uuid (reservations d), student_id = sid, property_id = pid,
                  r_payment_status = st, unlock_granted = ug\<rparr>
      in if \<not> reservations_insert_policy auth_uid NEW then Inl rls_violation
         else if \<not> list_ex (\<lambda>u. u_id u = sid) (users d) then Inl foreign_key_violation
         else if \<not> list_ex (\<lambda>p. p_id p = pid) (properties d) then Inl foreign_key_violation
         else if list_ex (\<lambda>r. student_id r = sid \<and> property_id r = pid) (reservations d)
              then Inl unique_violation
         else case handle_reservation_insert auth_uid NEW (properties d) of
                Inl e \<Rightarrow> Inl e
              | Inr ps \<Rightarrow> Inr (d\<lparr>properties := ps, reservations := reservations d @ [NEW]\<rparr>))"

text \<open>
  \<^verbatim>\<open>UPDATE reservations SET payment_status = st WHERE id = rid\<close>: each row with
  that id that passes the update policy is rewritten and fires the update trigger.
\<close>

fun update_payment_status_rows ::
  "uuid \<Rightarrow> uuid \<Rightarrow> payment_status \<Rightarrow> reservation list \<Rightarrow> property list
     \<Rightarrow> db_error + (reservation list \<times> property list)" where
  "update_payment_status_rows auth_uid rid st [] ps = Inr ([], ps)"
| "update_payment_status_rows auth_uid rid st (OLD # rs) ps =
     (if r_id OLD = rid \<and> reservations_update_policy auth_uid OLD
      then (let NEW = OLD\<lparr>r_payment_status := st\<rparr>
            in case handle_reservation_update auth_uid OLD NEW ps of
                 Inl e \<Rightarrow> Inl e
               | Inr ps1 \<Rightarrow>
                   (case update_payment_status_rows auth_uid rid st rs ps1 of
                      Inl e \<Rightarrow> Inl e
                    | Inr (rs', ps') \<Rightarrow> Inr (NEW # rs', ps')))
      else (case update_payment_status_rows auth_uid rid st rs ps of
              Inl e \<Rightarrow> Inl e
            | Inr (rs', ps') \<Rightarrow> Inr (OLD # rs', ps')))"

definition update_payment_status ::
  "uuid \<Rightarrow> uuid \<Rightarrow> payment_status \<Rightarrow> db \<Rightarrow> db_error + db" where
  "update_payment_status auth_uid rid st d =
     (case update_payment_status_rows auth_uid rid st (reservations d) (properties d) of
        Inl e \<Rightarrow> Inl e
      | Inr (rs, ps) \<Rightarrow> Inr (d\<lparr>properties := ps, reservations := rs\<rparr>))"

text \<open>
  The queries. \<^verbatim>\<open>maybeSingle()\<close> answers with the row, with no data when no row
  matches, and with an error (and no data) when several do; \<^verbatim>\<open>single()\<close> answers
  with an error unless exactly one row matches.
\<close>

definition maybeSingle :: "'a list \<Rightarrow> db_error + 'a option" where
  "maybeSingle rows = (case rows of [] \<Rightarrow> Inr None | [r] \<Rightarrow> Inr (Some r) | _ \<Rightarrow> Inl request_failed)"

definition single :: "'a list \<Rightarrow> db_error + 'a" where
  "single rows = (case rows of [r] \<Rightarrow> Inr r | _ \<Rightarrow> Inl request_failed)"

definition select_reservations :: "uuid \<Rightarrow> (reservation \<Rightarrow> bool) \<Rightarrow> db \<Rightarrow> reservation list" where
  "select_reservations auth_uid wh d =
     filter (\<lambda>r. wh r \<and> reservations_select_policy auth_uid r) (reservations d)"

definition select_properties :: "uuid option \<Rightarrow> (property \<Rightarrow> bool) \<Rightarrow> db \<Rightarrow> property list" where
  "select_properties auth wh d = filter (\<lambda>p. wh p \<and> properties_select_policy auth p) (properties d)"

definition select_users :: "uuid option \<Rightarrow> (users_row \<Rightarrow> bool) \<Rightarrow> db \<Rightarrow> users_row list" where
  "select_users auth wh d = filter (\<lambda>u. wh u \<and> users_select_policy auth u) (users d)"

section \<open>The property detail page\<close>

text \<open>
  The state of \<^verbatim>\<open>PropertyDetailPage\<close> (\<^verbatim>\<open>part_003\<close> lines 39-53): the route's
  \<^verbatim>\<open>id\<close>, \<^verbatim>\<open>user\<close> and \<^verbatim>\<open>profile\<close> of the auth context (the user's id and the
  profile's role), and the component's own state. \<open>toasts\<close> collects the calls of
  \<^verbatim>\<open>toast\<close>.
\<close>

datatype toast = toast_plain string | toast_success string | toast_error string

record page =
  route_id :: uuid
  user :: "uuid option"
  profile :: "user_role option"
  property :: "property option"
  landlord :: "users_row option"
  loading :: bool
  isUnlocked :: bool
  paymentLoading :: bool
  error :: "string option"
  toasts :: "toast list"

text \<open>
  Every call of the Supabase client is a request that can fail on its way; the client
  then answers with \<^verbatim>\<open>{ data: null, error }\<close> and does not throw. The first
  argument of the handlers tells, for each request they send, whether it gets through.
\<close>

datatype request =
  Select_property | Select_landlord | Select_unlock
  | Select_existing | Insert_reservation | Update_rooms | Rpc_decrement_rooms
  | Select_fresh | Update_rooms_again

text \<open>
  \<^verbatim>\<open>fetchProperty\<close> (lines 64-153) sends three queries. The first (lines 76-86)
  selects the property of the route with all its columns, \<^verbatim>\<open>select('*')\<close>,
  restricted to verified rows when there is no user or the profile is a student's.
\<close>

definition select_property_row :: "(request \<Rightarrow> bool) \<Rightarrow> db \<Rightarrow> page \<Rightarrow> db_error + property option" where
  "select_property_row net d c =
     (let verified_only = (user c = None \<or> profile c = Some role_student)
      in if net Select_property
         then maybeSingle (select_properties (user c)
                (\<lambda>p. p_id p = route_id c \<and> (if verified_only then is_verified p else True)) d)
         else Inl request_failed)"

text \<open>
  The second (lines 106-111) selects id, name, email and phone of the property's
  landlord.
\<close>

definition select_landlord_row ::
  "(request \<Rightarrow> bool) \<Rightarrow> db \<Rightarrow> page \<Rightarrow> property \<Rightarrow> db_error + users_row" where
  "select_landlord_row net d c propertyData =
     (if net Select_landlord
      then single (select_users (user c) (\<lambda>u. u_id u = landlord_id propertyData) d)
      else Inl request_failed)"

text \<open>
  The third (lines 128-134), for a user, selects the user's reservation of this
  property with \<^verbatim>\<open>unlock_granted = true\<close>.
\<close>

definition select_unlock_row ::
  "(request \<Rightarrow> bool) \<Rightarrow> db \<Rightarrow> page \<Rightarrow> uuid \<Rightarrow> db_error + reservation option" where
  "select_unlock_row net d c uid =
     (if net Select_unlock
      then maybeSingle (select_reservations uid
             (\<lambda>r. student_id r = uid \<and> property_id r = route_id c \<and> unlock_granted r = True) d)
      else Inl request_failed)"

text \<open>
  An error of the first query, or no row, ends the fetch with an error message. An
  error of the second or third is logged and the state they would set is left as it
  was; otherwise \<^verbatim>\<open>setIsUnlocked(!!reservationData)\<close>. The call of
  \<^verbatim>\<open>refreshAuth\<close> (lines 71-73) belongs to the auth context and is left out:
  \<^verbatim>\<open>user\<close> and \<^verbatim>\<open>profile\<close> are the values the component was rendered with.
\<close>

definition fetchProperty :: "(request \<Rightarrow> bool) \<Rightarrow> db \<Rightarrow> page \<Rightarrow> page" where
  "fetchProperty net d c0 =
     (let c = c0\<lparr>loading := True, error := None\<rparr>
      in case select_property_row net d c of
           Inl propertyError \<Rightarrow>
             c\<lparr>error := Some ''Failed to load property details'', loading := False\<rparr>
         | Inr None \<Rightarrow>
             c\<lparr>error := Some ''Property not found or not available'', loading := False\<rparr>
         | Inr (Some propertyData) \<Rightarrow>
             (let c1 = c\<lparr>property := Some propertyData\<rparr>;
                  c2 = (case select_landlord_row net d c propertyData of
                          Inl landlordError \<Rightarrow> c1
                        | Inr landlordData \<Rightarrow> c1\<lparr>landlord := Some landlordData\<rparr>);
                  c3 = (case user c of
                          None \<Rightarrow> c2
                        | Some uid \<Rightarrow>
                            (case select_unlock_row net d c uid of
                               Inl reservationError \<Rightarrow> c2
                             | Inr reservationData \<Rightarrow>
                                 c2\<lparr>isUnlocked := (reservationData \<noteq> None)\<rparr>))
              in c3\<lparr>loading := False\<rparr>))"

text \<open>
  \<^verbatim>\<open>decrement_rooms\<close> is called by \<^verbatim>\<open>handlePaymentSuccess\<close> (line 209) and
  defined by none of the migrations, so it is a parameter of the handler: a function
  from the caller, the property's id and the \<^verbatim>\<open>properties\<close> table to the table it
  leaves. Whatever it is, the table's \<^verbatim>\<open>CHECK\<close> constraints hold of what it writes,
  or the call fails and writes nothing. The answer of the call is dropped by the
  handler.
\<close>

definition rpc_decrement_rooms ::
  "(uuid \<Rightarrow> uuid \<Rightarrow> property list \<Rightarrow> property list) \<Rightarrow> uuid \<Rightarrow> uuid \<Rightarrow> property list
     \<Rightarrow> property list" where
  "rpc_decrement_rooms decrement_rooms auth_uid pid ps =
     (let ps' = decrement_rooms auth_uid pid ps
      in if list_all properties_checks ps' then ps' else ps)"

text \<open>
  With the migrations as they are there is no such function: the call is answered
  with an error and nothing is written.
\<close>

definition decrement_rooms_undefined :: "uuid \<Rightarrow> uuid \<Rightarrow> property list \<Rightarrow> property list" where
  "decrement_rooms_undefined auth_uid pid ps = ps"

text \<open>
  Modelled from the spec: \<^verbatim>\<open>decrement_rooms\<close>, which no file of the repository
  defines. The spec's counter decrement (section 4.2, step 3) is a conditional update at
  the database: \<^verbatim>\<open>rooms_available\<close> of the property falls by 1 where it is above 0.
  It is taken here to act whoever calls it.
\<close>

definition decrement_rooms_conditional :: "uuid \<Rightarrow> uuid \<Rightarrow> property list \<Rightarrow> property list" where
  "decrement_rooms_conditional auth_uid pid ps =
     map (\<lambda>p. if p_id p = pid \<and> rooms_available p > 0
              then p\<lparr>rooms_available := rooms_available p - 1\<rparr> else p) ps"

text \<open>
  \<^verbatim>\<open>handlePaymentSuccess\<close> (lines 155-227), the success callback of the payment
  button, in the order of its requests. \<^verbatim>\<open>prop\<close> is \<^verbatim>\<open>property\<close>, the page's
  copy of the row as the last \<^verbatim>\<open>fetchProperty\<close> left it, and \<open>uid\<close> is
  \<^verbatim>\<open>user.id\<close>.

  Lines 160-166, "Check for existing reservation": the error of the query is not
  read, so a failed query looks like no reservation.
\<close>

definition check_existing :: "(request \<Rightarrow> bool) \<Rightarrow> uuid \<Rightarrow> property \<Rightarrow> db \<Rightarrow> reservation option" where
  "check_existing net uid prop d =
     (case (if net Select_existing
            then maybeSingle (select_reservations uid
                   (\<lambda>r. student_id r = uid \<and> property_id r = p_id prop) d)
            else Inl request_failed) of
        Inl e \<Rightarrow> None
      | Inr data \<Rightarrow> data)"

text \<open>Lines 175-183, "Create reservation record".\<close>

definition create_reservation :: "(request \<Rightarrow> bool) \<Rightarrow> uuid \<Rightarrow> property \<Rightarrow> db \<Rightarrow> db_error + db" where
  "create_reservation net uid prop d =
     (if net Insert_reservation then insert_reservation uid uid (p_id prop) paid True d
      else Inl request_failed)"

text \<open>
  Lines 190-202, "Reduce available rooms by 1": the value written is computed from the
  page's copy; an error is logged and not thrown.
\<close>

definition reduce_available_rooms :: "(request \<Rightarrow> bool) \<Rightarrow> uuid \<Rightarrow> property \<Rightarrow> db \<Rightarrow> db" where
  "reduce_available_rooms net uid prop d1 =
     (case (if net Update_rooms
            then update_properties uid (\<lambda>p. p_id p = p_id prop)
                   (\<lambda>p. p\<lparr>rooms_available := max 0 (rooms_available prop - 1)\<rparr>)
                   (properties d1)
            else Inl request_failed) of
        Inl updateError \<Rightarrow> d1
      | Inr ps \<Rightarrow> d1\<lparr>properties := ps\<rparr>)"

text \<open>
  Lines 208-219, "Refetch property data to get updated info": the call of
  \<^verbatim>\<open>decrement_rooms\<close>, a fresh read of \<^verbatim>\<open>rooms_available\<close>, and an update to
  \<^verbatim>\<open>Math.max(0, (fresh?.rooms_available ?? property.rooms_available) - 1)\<close>. No
  answer is checked for an error.
\<close>

definition call_decrement_rooms ::
  "(request \<Rightarrow> bool) \<Rightarrow> (uuid \<Rightarrow> uuid \<Rightarrow> property list \<Rightarrow> property list)
     \<Rightarrow> uuid \<Rightarrow> property \<Rightarrow> db \<Rightarrow> db" where
  "call_decrement_rooms net decrement_rooms uid prop d2 =
     (if net Rpc_decrement_rooms
      then d2\<lparr>properties := rpc_decrement_rooms decrement_rooms uid (p_id prop) (properties d2)\<rparr>
      else d2)"

definition select_fresh :: "(request \<Rightarrow> bool) \<Rightarrow> uuid \<Rightarrow> property \<Rightarrow> db \<Rightarrow> int option" where
  "select_fresh net uid prop d3 =
     (case (if net Select_fresh
            then single (select_properties (Some uid) (\<lambda>p. p_id p = p_id prop) d3)
            else Inl request_failed) of
        Inl e \<Rightarrow> None
      | Inr row \<Rightarrow> Some (rooms_available row))"

definition update_new_rooms :: "(request \<Rightarrow> bool) \<Rightarrow> uuid \<Rightarrow> property \<Rightarrow> db \<Rightarrow> db" where
  "update_new_rooms net uid prop d3 =
     (let newRooms = max 0 ((case select_fresh net uid prop d3 of
                               Some r \<Rightarrow> r
                             | None \<Rightarrow> rooms_available prop) - 1)
      in case (if net Update_rooms_again
               then update_properties uid (\<lambda>p. p_id p = p_id prop)
                      (\<lambda>p. p\<lparr>rooms_available := newRooms\<rparr>) (properties d3)
               else Inl request_failed) of
           Inl e \<Rightarrow> d3
         | Inr ps \<Rightarrow> d3\<lparr>properties := ps\<rparr>)"

text \<open>
  The handler. Without a user or a property it returns at once. An existing
  reservation ends it with the toast "already unlocked". An error of the insert is
  thrown and caught at line 221. After the insert the page is unlocked and the three
  statements on the counter follow, then \<^verbatim>\<open>fetchProperty\<close>.
\<close>

definition handlePaymentSuccess ::
  "(request \<Rightarrow> bool) \<Rightarrow> (uuid \<Rightarrow> uuid \<Rightarrow> property list \<Rightarrow> property list)
     \<Rightarrow> page \<Rightarrow> db \<Rightarrow> page \<times> db" where
  "handlePaymentSuccess net decrement_rooms c d =
     (case user c of
        None \<Rightarrow> (c, d)
      | Some uid \<Rightarrow>
     (case property c of
        None \<Rightarrow> (c, d)
      | Some prop \<Rightarrow>
     (let c0 = c\<lparr>paymentLoading := True\<rparr>
      in case check_existing net uid prop d of
           Some existing \<Rightarrow>
             (c0\<lparr>toasts := toasts c0 @ [toast_plain ''You have already unlocked this property.''],
                 isUnlocked := True, paymentLoading := False\<rparr>, d)
         | None \<Rightarrow>
             (case create_reservation net uid prop d of
                Inl reservationError \<Rightarrow>
                  (c0\<lparr>toasts := toasts c0 @
                        [toast_error ''Payment processed but failed to unlock property. Please contact support.''],
                      paymentLoading := False\<rparr>, d)
              | Inr d1 \<Rightarrow>
                  (let d2 = reduce_available_rooms net uid prop d1;
                       c1 = c0\<lparr>isUnlocked := True,
                              toasts := toasts c0 @
                                [toast_success ''Property unlocked! You can now view full details and contact the landlord.'']\<rparr>;
                       d3 = call_decrement_rooms net decrement_rooms uid prop d2;
                       d4 = update_new_rooms net uid prop d3;
                       c2 = fetchProperty net d4 c1
                   in (c2\<lparr>paymentLoading := False\<rparr>, d4))))))"

text \<open>
  A duplicate payment callback: the handler runs twice in sequence, the second time on
  the page and the database that the first run left.
\<close>

definition duplicate_callback ::
  "(request \<Rightarrow> bool) \<Rightarrow> (uuid \<Rightarrow> uuid \<Rightarrow> property list \<Rightarrow> property list)
     \<Rightarrow> page \<Rightarrow> db \<Rightarrow> page \<times> db" where
  "duplicate_callback net decrement_rooms c d =
     (case handlePaymentSuccess net decrement_rooms c d of
        (c1, d1) \<Rightarrow> handlePaymentSuccess net decrement_rooms c1 d1)"

text \<open>
  What the page shows (lines 239-611). With \<^verbatim>\<open>loading\<close> set it shows a spinner,
  with an error or without a property the error screen: \<open>None\<close>. Otherwise the
  detailed location when \<^verbatim>\<open>isUnlocked && property.detailed_location\<close> (line 393),
  the video when \<^verbatim>\<open>property.video_url && isUnlocked\<close> (lines 333 and 455), and
  the sidebar card chosen by the chain of conditions at lines 493-605.
\<close>

datatype sidebar =
  Fully_Booked
  | Unlock_Full_Details "int option"
  | Landlord_Contact string string "string option"
  | Sign_In
  | Only_students

record view =
  shown_detailed_location :: "string option"
  shown_video :: "string option"
  shown_sidebar :: sidebar

definition render :: "page \<Rightarrow> view option" where
  "render c =
     (if loading c then None
      else case property c of
        None \<Rightarrow> None
      | Some prop \<Rightarrow>
          if error c \<noteq> None then None
          else Some
            \<lparr>shown_detailed_location =
               (if isUnlocked c \<and> detailed_location prop \<noteq> [] then Some (detailed_location prop)
                else None),
             shown_video =
               (case video_url prop of
                  None \<Rightarrow> None
                | Some v \<Rightarrow> if v \<noteq> [] \<and> isUnlocked c then Some v else None),
             shown_sidebar =
               (if rooms_available prop = 0 then Fully_Booked
                else if \<not> isUnlocked c \<and> user c \<noteq> None \<and> profile c = Some role_student
                  then Unlock_Full_Details (PropertyDetailPage_dynamicReservationFee prop)
                else case (if isUnlocked c then landlord c else None) of
                  Some l \<Rightarrow> Landlord_Contact (u_name l) (u_email l) (u_phone l)
                | None \<Rightarrow> if user c = None then Sign_In else Only_students)\<rparr>)"

section \<open>The student dashboard\<close>

text \<open>
  \<^verbatim>\<open>requestRefund\<close> (\<^verbatim>\<open>StudentDashboard.tsx\<close> lines 151-167): after the user
  confirms the dialog, one update of the reservation with this id, sent by the
  session's principal; then a toast and \<^verbatim>\<open>fetchReservations\<close>, which only
  reads. The function does not look at the reservation's status; the button that
  calls it is shown for a reservation with \<^verbatim>\<open>payment_status === 'paid'\<close>
  (line 400).
\<close>

definition refund_button_shown :: "reservation \<Rightarrow> bool" where
  "refund_button_shown r = (r_payment_status r = paid)"

definition requestRefund :: "bool \<Rightarrow> bool \<Rightarrow> uuid \<Rightarrow> uuid \<Rightarrow> db \<Rightarrow> toast list \<times> db" where
  "requestRefund confirmed net_ok auth_uid reservationId d =
     (if \<not> confirmed then ([], d)
      else case (if net_ok then update_payment_status auth_uid reservationId refunded d
                 else Inl request_failed) of
             Inl e \<Rightarrow> ([toast_error ''Failed to request refund''], d)
           | Inr d' \<Rightarrow>
               ([toast_success ''Refund requested successfully! We will process it within 3-5 business days.''],
                d'))"

section \<open>The landlord's edits\<close>

text \<open>
  The form of the landlord dashboard, with the columns of the model.
\<close>

record formData =
  f_location :: string
  f_detailed_location :: string
  f_rooms_available :: int
  f_total_rooms :: int
  f_price :: int
  f_video_url :: string

text \<open>
  \<^verbatim>\<open>INSERT INTO properties\<close>: the id defaults to a fresh uuid; the row must pass
  the insert policies (\<^verbatim>\<open>WITH CHECK (landlord_id = auth.uid())\<close>), the foreign key
  to \<^verbatim>\<open>users\<close> and the \<^verbatim>\<open>CHECK\<close> constraints.
\<close>

definition insert_property :: "uuid \<Rightarrow> property \<Rightarrow> db \<Rightarrow> db_error + db" where
  "insert_property auth_uid row d =
     (let NEW = row\<lparr>p_id := Suc (fold max (map p_id (properties d)) 0)\<rparr>
      in if landlord_id NEW \<noteq> auth_uid then Inl rls_violation
         else if \<not> list_ex (\<lambda>u. u_id u = landlord_id NEW) (users d) then Inl foreign_key_violation
         else if \<not> properties_checks NEW then Inl check_violation
         else Inr (d\<lparr>properties := properties d @ [NEW]\<rparr>))"

text \<open>
  \<^verbatim>\<open>handleSubmitProperty\<close> (\<^verbatim>\<open>landlordDashboardUtils.ts\<close> lines 27-73, and the
  same code in \<^verbatim>\<open>part_002\<close> lines 102-140). The row sent is the form with
  \<^verbatim>\<open>landlord_id: user.id\<close>, \<^verbatim>\<open>reservation_fee: dynamicReservationFee\<close> and
  \<^verbatim>\<open>video_url: formData.video_url || null\<close>. A fee that is not a finite number is
  sent as \<^verbatim>\<open>null\<close> and breaks the column's \<^verbatim>\<open>NOT NULL\<close>. A new row is not
  verified.
\<close>

definition handleSubmitProperty ::
  "bool \<Rightarrow> uuid option \<Rightarrow> formData \<Rightarrow> uuid option \<Rightarrow> db \<Rightarrow> toast list \<times> db" where
  "handleSubmitProperty net_ok user_id formData editingProperty d =
     (case user_id of
        None \<Rightarrow> ([], d)
      | Some uid \<Rightarrow>
          (let dynamicReservationFee =
                 calculateReservationFee (f_price formData) (f_total_rooms formData);
               propertyData = (\<lambda>fee p. p\<lparr>location := f_location formData,
                   detailed_location := f_detailed_location formData,
                   rooms_available := f_rooms_available formData,
                   total_rooms := f_total_rooms formData,
                   price := f_price formData,
                   landlord_id := uid,
                   reservation_fee := fee,
                   video_url := (if f_video_url formData = [] then None
                                 else Some (f_video_url formData))\<rparr>)
           in case editingProperty of
                Some pid \<Rightarrow>
                  (case (if \<not> net_ok then Inl request_failed
                         else case dynamicReservationFee of
                                None \<Rightarrow> Inl not_null_violation
                              | Some fee \<Rightarrow>
                                  update_properties uid (\<lambda>p. p_id p = pid) (propertyData fee)
                                    (properties d)) of
                     Inl e \<Rightarrow> ([toast_error ''Failed to save property''], d)
                   | Inr ps \<Rightarrow>
                       ([toast_success ''Property updated successfully!''], d\<lparr>properties := ps\<rparr>))
              | None \<Rightarrow>
                  (case (if \<not> net_ok then Inl request_failed
                         else case dynamicReservationFee of
                                None \<Rightarrow> Inl not_null_violation
                              | Some fee \<Rightarrow>
                                  insert_property uid
                                    (propertyData fee
                                       \<lparr>p_id = 0, location = [], detailed_location = [],
                                        rooms_available = 1, total_rooms = 1, price = 0,
                                        reservation_fee = 5000, is_verified = False,
                                        video_url = None, landlord_id = uid\<rparr>) d) of
                     Inl e \<Rightarrow> ([toast_error ''Failed to save property''], d)
                   | Inr d' \<Rightarrow>
                       ([toast_success ''Property added successfully! It will be reviewed for verification.''],
                        d'))))"

text \<open>
  The columns of \<^verbatim>\<open>properties\<close> that \<^verbatim>\<open>CREATE TABLE\<close> gives it
  (\<^verbatim>\<open>orange_glitter.sql\<close> lines 62-75), and the columns that the update of
  \<^verbatim>\<open>MultiStepPropertyForm.tsx\<close> (lines 119-133) sends. No migration adds
  \<^verbatim>\<open>proof_of_ownership\<close> or \<^verbatim>\<open>pending_review\<close>; none adds
  \<^verbatim>\<open>detailed_location\<close> either, into which \<^verbatim>\<open>royal_mountain.sql\<close> inserts. So the
  table that is deployed has columns that the migrations do not create, and the list of
  its columns is a parameter of the update.
\<close>

definition properties_columns :: "string list" where
  "properties_columns =
     [''id'', ''title'', ''description'', ''location'', ''rooms_available'', ''total_rooms'',
      ''price'', ''tier'', ''reservation_fee'', ''is_verified'', ''images'', ''video_url'',
      ''landlord_id'', ''created_at'']"

definition MultiStepPropertyForm_update_columns :: "string list" where
  "MultiStepPropertyForm_update_columns =
     [''title'', ''description'', ''location'', ''detailed_location'', ''total_rooms'',
      ''rooms_available'', ''price'', ''tier'', ''reservation_fee'', ''images'', ''video_url'',
      ''proof_of_ownership'', ''pending_review'']"

text \<open>
  The edit branch of \<^verbatim>\<open>handleSubmit\<close> in \<^verbatim>\<open>MultiStepPropertyForm.tsx\<close>
  (lines 73-166), sent by the session's principal: the update writes the form's
  columns and \<^verbatim>\<open>reservation_fee: calcReservationFee()\<close>; \<^verbatim>\<open>landlord_id\<close> is not
  among them. A column that the table does not have makes the request fail, and
  nothing is written. An error is thrown and caught (lines 155-161), and the toast
  reads \<^verbatim>\<open>'Failed to submit property: ' + (err?.message || 'Unknown error')\<close>;
  \<open>message\<close> gives the text of each error. The uploads that come before the update
  do not touch the tables; one that fails ends the handler as a failed request does.
\<close>

definition MultiStepPropertyForm_update ::
  "bool \<Rightarrow> (db_error \<Rightarrow> string) \<Rightarrow> string list \<Rightarrow> uuid \<Rightarrow> formData \<Rightarrow> uuid \<Rightarrow> db
     \<Rightarrow> toast list \<times> db" where
  "MultiStepPropertyForm_update net_ok message columns auth_uid form propertyToEdit d =
     (case (if \<not> net_ok then Inl request_failed
            else if \<not> list_all (\<lambda>c. c \<in> set columns) MultiStepPropertyForm_update_columns
              then Inl undefined_column
            else case calcReservationFee (f_price form) (f_total_rooms form) of
                   None \<Rightarrow> Inl not_null_violation
                 | Some fee \<Rightarrow>
                     update_properties auth_uid (\<lambda>p. p_id p = propertyToEdit)
                       (\<lambda>p. p\<lparr>location := f_location form,
                              detailed_location := f_detailed_location form,
                              total_rooms := f_total_rooms form,
                              rooms_available := f_rooms_available form,
                              price := f_price form,
                              reservation_fee := fee,
                              video_url := (if f_video_url form = [] then None
                                            else Some (f_video_url form))\<rparr>)
                       (properties d)) of
        Inl err \<Rightarrow>
          ([toast_error (''Failed to submit property: ''
              @ (if message err = [] then ''Unknown error'' else message err))], d)
      | Inr ps \<Rightarrow> ([toast_success ''Property updated!''], d\<lparr>properties := ps\<rparr>))"

section \<open>Invariants of the tables\<close>

text \<open>
  \<^verbatim>\<open>valid_room_count\<close> on every row, and the key constraints of
  \<^verbatim>\<open>reservations\<close>: the primary key and \<^verbatim>\<open>UNIQUE(student_id, property_id)\<close>.
\<close>

definition room_counts_valid :: "db \<Rightarrow> bool" where
  "room_counts_valid d = list_all valid_room_count (properties d)"

definition reservation_keys_valid :: "db \<Rightarrow> bool" where
  "reservation_keys_valid d =
     (distinct (map r_id (reservations d))
      \<and> distinct (map (\<lambda>r. (student_id r, property_id r)) (reservations d)))"

text \<open>The row of a property, and its counter.\<close>

definition property_of :: "uuid \<Rightarrow> db \<Rightarrow> property option" where
  "property_of pid d = find (\<lambda>p. p_id p = pid) (properties d)"

definition rooms_available_of :: "uuid \<Rightarrow> db \<Rightarrow> int option" where
  "rooms_available_of pid d = map_option rooms_available (property_of pid d)"

definition reservations_of :: "uuid \<Rightarrow> uuid \<Rightarrow> db \<Rightarrow> reservation list" where
  "reservations_of sid pid d =
     filter (\<lambda>r. student_id r = sid \<and> property_id r = pid) (reservations d)"

text \<open>
  Two states of the \<^verbatim>\<open>properties\<close> table, row by row: each row is as it was, or
  its \<^verbatim>\<open>rooms_available\<close> is one higher.
\<close>

definition rose_by_at_most_one :: "property list \<Rightarrow> property list \<Rightarrow> bool" where
  "rose_by_at_most_one ps ps' =
     list_all2 (\<lambda>p p'. p' = p \<or> p' = p\<lparr>rooms_available := rooms_available p + 1\<rparr>) ps ps'"

text \<open>
  The read-time gate. A reservation of the student for the property with
  \<^verbatim>\<open>unlock_granted = true\<close> exists; and a view shows some of what the gate
  protects: the detailed location, the video or the landlord's contact card.
\<close>

definition unlocked_reservation_exists :: "uuid \<Rightarrow> uuid \<Rightarrow> db \<Rightarrow> bool" where
  "unlocked_reservation_exists sid pid d =
     list_ex (\<lambda>r. student_id r = sid \<and> property_id r = pid \<and> unlock_granted r) (reservations d)"

definition shows_gated_details :: "view \<Rightarrow> bool" where
  "shows_gated_details v =
     (shown_detailed_location v \<noteq> None \<or> shown_video v \<noteq> None
      \<or> (case shown_sidebar v of Landlord_Contact n e p \<Rightarrow> True | _ \<Rightarrow> False))"

section \<open>Sample data\<close>

text \<open>
  The sample landlord and the first sample property of
  \<^verbatim>\<open>20250612233846_royal_mountain.sql\<close> (lines 55-87), with a video added, and a
  student who opens the property's page. \<open>all_ok\<close> lets every request through.
\<close>

definition sample_student :: users_row where
  "sample_student = \<lparr>u_id = 1, u_name = ''Ada'', u_email = ''ada@example.com'',
     u_role = role_student, u_phone = None\<rparr>"

definition sample_landlord :: users_row where
  "sample_landlord = \<lparr>u_id = 9, u_name = ''Sample Landlord'', u_email = ''landlord@example.com'',
     u_role = role_landlord, u_phone = Some ''+2348012345678''\<rparr>"

definition sample_property :: property where
  "sample_property = \<lparr>p_id = 10, location = ''Near LASU, Ojo'',
     detailed_location = ''No. 15 University Road, Opposite LASU Main Gate'',
     rooms_available = 3, total_rooms = 4, price = 180000, reservation_fee = 5000,
     is_verified = True, video_url = Some ''tour.mp4'', landlord_id = 9\<rparr>"

definition sample_db :: db where
  "sample_db = \<lparr>users = [sample_student, sample_landlord], properties = [sample_property],
     reservations = []\<rparr>"

definition sample_page :: page where
  "sample_page = \<lparr>route_id = 10, user = Some 1, profile = Some role_student,
     property = Some sample_property, landlord = Some sample_landlord, loading = False,
     isUnlocked = False, paymentLoading = False, error = None, toasts = []\<rparr>"

text \<open>
  The sample database with a paid, unlocked reservation of the student, and the same
  with the reservation held by the property's own landlord (a principal whom the
  update policy of \<^verbatim>\<open>properties\<close> admits).
\<close>

definition sample_db_paid :: db where
  "sample_db_paid = sample_db\<lparr>reservations :=
     [\<lparr>r_id = 1, student_id = 1, property_id = 10, r_payment_status = paid,
       unlock_granted = True\<rparr>]\<rparr>"

definition sample_db_own :: db where
  "sample_db_own = sample_db\<lparr>reservations :=
     [\<lparr>r_id = 1, student_id = 9, property_id = 10, r_payment_status = paid,
       unlock_granted = True\<rparr>]\<rparr>"

text \<open>
  The page as it is mounted, before \<open>fetchProperty\<close>; the page of the property's
  landlord signed in as the user; the property with no room left; the landlord's own
  reservation with every room free; and a network that loses the query for an existing
  reservation.
\<close>

definition fresh_page :: page where
  "fresh_page = \<lparr>route_id = 10, user = Some 1, profile = Some role_student,
     property = None, landlord = None, loading = True,
     isUnlocked = False, paymentLoading = False, error = None, toasts = []\<rparr>"

definition owner_page :: page where
  "owner_page = sample_page\<lparr>user := Some 9\<rparr>"

definition sample_db_booked :: db where
  "sample_db_booked = sample_db\<lparr>properties := [sample_property\<lparr>rooms_available := 0\<rparr>]\<rparr>"

definition sample_db_own_full :: db where
  "sample_db_own_full = sample_db_own\<lparr>properties := [sample_property\<lparr>rooms_available := 4\<rparr>]\<rparr>"

definition existing_lost :: "request \<Rightarrow> bool" where
  "existing_lost r = (r \<noteq> Select_existing)"

text \<open>The student's paid, unlocked reservation of a property with no room left.\<close>

definition sample_db_paid_booked :: db where
  "sample_db_paid_booked = sample_db_paid\<lparr>properties := [sample_property\<lparr>rooms_available := 0\<rparr>]\<rparr>"

text \<open>A form that claims 7 free rooms out of 4.\<close>

definition sample_form :: formData where
  "sample_form = \<lparr>f_location = ''Near LASU, Ojo'',
     f_detailed_location = ''No. 15 University Road, Opposite LASU Main Gate'',
     f_rooms_available = 7, f_total_rooms = 4, f_price = 180000, f_video_url = []\<rparr>"

definition all_ok :: "request \<Rightarrow> bool" where
  "all_ok r = True"

text \<open>
  A page that still holds \<^verbatim>\<open>isUnlocked\<close> from an earlier render, and a network
  that loses the query for the unlock.
\<close>

definition stale_page :: page where
  "stale_page = sample_page\<lparr>isUnlocked := True\<rparr>"

definition unlock_lost :: "request \<Rightarrow> bool" where
  "unlock_lost r = (r \<noteq> Select_unlock)"

text \<open>
  A table with the columns that the code uses on top of those of the migrations, and
  errors that carry no message.
\<close>

definition deployed_columns :: "string list" where
  "deployed_columns =
     properties_columns @ [''detailed_location'', ''proof_of_ownership'', ''pending_review'']"

definition no_message :: "db_error \<Rightarrow> string" where
  "no_message e = []"

section \<open>Rounding to the nearest double\<close>

text \<open>
  The exponent brackets its argument, and rounding to the nearest double is monotone,
  moves a number of the normal range by at most \<open>2 powi (- 53)\<close> of itself, and
  leaves every multiple of the spacing where it is: integers below \<open>2 ^ 53\<close> and
  half-integers below \<open>2 ^ 52\<close> are doubles.
\<close>

lemma powi_nat: "0 \<le> k \<Longrightarrow> (2::rat) powi k = 2 ^ nat k"
  by (simp add: power_int_def)

lemma powi_neg: "0 \<le> k \<Longrightarrow> (2::rat) powi (- k) = 1 / 2 ^ nat k"
  by (simp add: power_int_minus powi_nat field_simps)

lemma bitlen_pos_bounds:
  assumes "0 < (n::int)"
  shows "1 \<le> bitlen n" and "(2::rat) ^ nat (bitlen n - 1) \<le> of_int n"
    and "of_int n + 1 \<le> (2::rat) ^ nat (bitlen n)"
proof -
  show "1 \<le> bitlen n" using assms by (auto simp: bitlen_alt_def)
  from bitlen_bounds [OF assms] have a: "2 ^ nat (bitlen n - 1) \<le> n" and b: "n + 1 \<le> 2 ^ nat (bitlen n)"
    by simp_all
  have "(of_int (2 ^ nat (bitlen n - 1)) :: rat) \<le> of_int n" using a by (simp only: of_int_le_iff)
  then show "(2::rat) ^ nat (bitlen n - 1) \<le> of_int n" by simp
  have "(of_int (n + 1) :: rat) \<le> of_int (2 ^ nat (bitlen n))" using b by (simp only: of_int_le_iff)
  then show "of_int n + 1 \<le> (2::rat) ^ nat (bitlen n)" by simp
qed

lemma binade_bounds:
  assumes "0 < x"
  shows "2 powi binade x \<le> x" and "x < 2 powi (binade x + 1)"
proof -
  have "2 powi binade x \<le> x \<and> x < 2 powi (binade x + 1)"
  proof (cases "1 \<le> x")
    case True
    then have f: "0 < \<lfloor>x\<rfloor>" by linarith
    note b = bitlen_pos_bounds [OF f]
    have e: "binade x = bitlen \<lfloor>x\<rfloor> - 1" using True by (simp add: binade_def)
    have n: "nat (bitlen \<lfloor>x\<rfloor> - 1 + 1) = nat (bitlen \<lfloor>x\<rfloor>)" by simp
    have "(2::rat) powi binade x \<le> rat_of_int \<lfloor>x\<rfloor>" using b(1,2) by (simp add: e powi_nat)
    moreover have "rat_of_int \<lfloor>x\<rfloor> \<le> x" by simp
    moreover have "x < rat_of_int \<lfloor>x\<rfloor> + 1" by linarith
    moreover have "rat_of_int \<lfloor>x\<rfloor> + 1 \<le> 2 powi (binade x + 1)"
      using b(1,3) by (simp add: e powi_nat)
    ultimately show ?thesis by linarith
  next
    case False
    with assms have x: "0 < x" "x < 1" by simp_all
    then have "1 < 1 / x" by simp
    then have c: "2 \<le> \<lceil>1 / x\<rceil>" by linarith
    define n where "n = \<lceil>1 / x\<rceil> - 1"
    have n: "0 < n" using c by (simp add: n_def)
    have lo: "rat_of_int n < 1 / x" unfolding n_def by linarith
    have hi: "1 / x \<le> rat_of_int n + 1" unfolding n_def by simp
    note b = bitlen_pos_bounds [OF n]
    have e: "binade x = - bitlen n" using False by (simp add: binade_def n_def)
    have e1: "binade x + 1 = - (bitlen n - 1)" by (simp add: e)
    have p1: "(2::rat) powi binade x = 1 / 2 ^ nat (bitlen n)" using b(1) by (simp add: e powi_neg)
    have p2: "(2::rat) powi (binade x + 1) = 1 / 2 ^ nat (bitlen n - 1)"
      unfolding e1 using b(1) powi_neg [of "bitlen n - 1"] by simp
    have "1 / x \<le> (2::rat) ^ nat (bitlen n)" using hi b(3) by linarith
    then have "1 \<le> 2 ^ nat (bitlen n) * x" using x(1) by (simp add: field_simps)
    then have A: "1 / 2 ^ nat (bitlen n) \<le> x" by (simp add: field_simps)
    have "(2::rat) ^ nat (bitlen n - 1) < 1 / x" using lo b(2) by linarith
    then have "2 ^ nat (bitlen n - 1) * x < 1" using x(1) by (simp add: field_simps)
    then have B: "x < 1 / 2 ^ nat (bitlen n - 1)" by (simp add: field_simps)
    show ?thesis using A B by (simp add: p1 p2)
  qed
  then show "2 powi binade x \<le> x" and "x < 2 powi (binade x + 1)" by simp_all
qed

lemma powi_mono: "k \<le> l \<Longrightarrow> (2::rat) powi k \<le> 2 powi l"
  by (rule power_int_increasing) simp_all

lemma powi_less_D: "(2::rat) powi k < 2 powi l \<Longrightarrow> k < l"
proof (rule ccontr)
  assume a: "(2::rat) powi k < 2 powi l" and "\<not> k < l"
  then have "l \<le> k" by simp
  from powi_mono [OF this] a show False by simp
qed

lemma binade_less: "0 < x \<Longrightarrow> x < 2 powi k \<Longrightarrow> binade x < k"
  using binade_bounds(1) [of x] by (intro powi_less_D [of "binade x" k]) linarith

lemma binade_ge: "0 < x \<Longrightarrow> 2 powi k \<le> x \<Longrightarrow> k \<le> binade x"
  using binade_bounds(2) [of x] powi_less_D [of k "binade x + 1"] by fastforce

lemma binade_mono: "0 < x \<Longrightarrow> x \<le> z \<Longrightarrow> binade x \<le> binade z"
  using binade_bounds(1) [of x] by (intro binade_ge) linarith+

lemma round_half_even_near: "\<bar>of_int (round_half_even r) - r\<bar> \<le> 1 / 2"
proof -
  have "rat_of_int \<lfloor>r\<rfloor> \<le> r" "r < rat_of_int \<lfloor>r\<rfloor> + 1" by linarith+
  then show ?thesis unfolding round_half_even_def Let_def by (simp split: if_splits)
qed

lemma round_half_even_of_int [simp]: "round_half_even (of_int n) = n"
  unfolding round_half_even_def Let_def by simp

lemma round_half_even_cases: "round_half_even r = \<lfloor>r\<rfloor> \<or> round_half_even r = \<lfloor>r\<rfloor> + 1"
  unfolding round_half_even_def Let_def by auto

lemma round_half_even_mono:
  assumes "r \<le> s"
  shows "round_half_even r \<le> round_half_even s"
proof (cases "\<lfloor>r\<rfloor> < \<lfloor>s\<rfloor>")
  case True
  have "round_half_even r \<le> \<lfloor>r\<rfloor> + 1" using round_half_even_cases [of r] by auto
  moreover have "\<lfloor>s\<rfloor> \<le> round_half_even s" using round_half_even_cases [of s] by auto
  ultimately show ?thesis using True by linarith
next
  case False
  moreover have "\<lfloor>r\<rfloor> \<le> \<lfloor>s\<rfloor>" using assms by (rule floor_mono)
  ultimately have e: "\<lfloor>r\<rfloor> = \<lfloor>s\<rfloor>" by simp
  show ?thesis using assms unfolding round_half_even_def Let_def e by auto
qed

lemma powi_pos [simp]: "0 < (2::rat) powi k"
  by simp

lemma powi_split: "(2::rat) powi k = 2 powi (k - 52) * 2 ^ 52"
proof -
  have "(2::rat) powi k = 2 powi ((k - 52) + 52)" by simp
  also have "\<dots> = 2 powi (k - 52) * 2 powi 52" by (rule power_int_add) simp
  finally show ?thesis by simp
qed

lemma round_double_pos:
  assumes "0 < x" and "- 1022 \<le> binade x"
  shows "round_double x = of_int (round_half_even (x / 2 powi (binade x - 52))) * 2 powi (binade x - 52)"
  using assms by (simp add: round_double_def max_def Let_def)

lemma round_double_error:
  assumes "0 < x" and "- 1022 \<le> binade x"
  shows "\<bar>round_double x - x\<bar> \<le> x / 2 ^ 53"
proof -
  define q :: rat where "q = 2 powi (binade x - 52)"
  have q: "0 < q" by (simp add: q_def)
  have r: "round_double x = of_int (round_half_even (x / q)) * q"
    unfolding q_def by (rule round_double_pos [OF assms])
  have "round_double x - x = (of_int (round_half_even (x / q)) - x / q) * q"
    using q by (simp add: r field_simps)
  then have "\<bar>round_double x - x\<bar> = \<bar>of_int (round_half_even (x / q)) - x / q\<bar> * q"
    using q by (simp add: abs_mult)
  also have "\<dots> \<le> 1 / 2 * q"
    using round_half_even_near [of "x / q"] q by (intro mult_right_mono) simp_all
  also have "q * 2 ^ 52 \<le> x"
    using binade_bounds(1) [OF assms(1)] powi_split [of "binade x"] by (simp add: q_def)
  then have "1 / 2 * q \<le> x / 2 ^ 53" by simp
  finally show ?thesis .
qed

lemma round_double_ge:
  assumes "0 < x" and "- 1022 \<le> binade x"
  shows "2 powi binade x \<le> round_double x"
proof -
  define q :: rat where "q = 2 powi (binade x - 52)"
  have q: "0 < q" by (simp add: q_def)
  have s: "2 powi binade x = q * 2 ^ 52" unfolding q_def by (rule powi_split)
  have r: "round_double x = of_int (round_half_even (x / q)) * q"
    unfolding q_def by (rule round_double_pos [OF assms])
  have "q * 2 ^ 52 \<le> x" using binade_bounds(1) [OF assms(1)] by (simp add: s)
  then have "rat_of_int (2 ^ 52) \<le> x / q" using q by (simp add: field_simps)
  from round_half_even_mono [OF this] have "2 ^ 52 \<le> round_half_even (x / q)"
    by (simp only: round_half_even_of_int)
  then have "rat_of_int (2 ^ 52) \<le> of_int (round_half_even (x / q))" by (simp only: of_int_le_iff)
  then have "rat_of_int (2 ^ 52) * q \<le> of_int (round_half_even (x / q)) * q"
    using q by (intro mult_right_mono) simp_all
  then show ?thesis by (simp add: r s mult.commute)
qed

lemma round_double_exact:
  assumes "0 < x" and "- 1022 \<le> binade x" and "x = of_int n * 2 powi k" and "binade x - 52 \<le> k"
  shows "round_double x = x"
proof -
  define q :: rat where "q = 2 powi (binade x - 52)"
  have q: "0 < q" by (simp add: q_def)
  have r: "round_double x = of_int (round_half_even (x / q)) * q"
    unfolding q_def by (rule round_double_pos [OF assms(1,2)])
  define j where "j = nat (k - (binade x - 52))"
  have "(2::rat) powi k = 2 powi ((k - (binade x - 52)) + (binade x - 52))" by simp
  also have "\<dots> = 2 powi (k - (binade x - 52)) * q"
    unfolding q_def by (rule power_int_add) simp
  also have "(2::rat) powi (k - (binade x - 52)) = 2 ^ j"
    unfolding j_def using assms(4) by (intro powi_nat) simp
  finally have pk: "(2::rat) powi k = 2 ^ j * q" .
  have "x = of_int n * 2 ^ j * q" by (subst assms(3)) (simp add: pk)
  then have xq: "x / q = rat_of_int (n * 2 ^ j)" using q by simp
  then have "round_half_even (x / q) = n * 2 ^ j"
    by (simp only: round_half_even_of_int)
  then have "rat_of_int (round_half_even (x / q)) = x / q"
    using xq by simp
  then show ?thesis using q by (simp add: r)
qed

lemma round_double_above:
  assumes "0 < x" and "- 1022 \<le> binade x" and "round_double x = x" and "x \<le> z"
  shows "x \<le> round_double z"
proof -
  have z: "0 < z" using assms(1,4) by simp
  have m: "binade x \<le> binade z" using assms(1,4) by (rule binade_mono)
  then have bz: "- 1022 \<le> binade z" using assms(2) by simp
  show ?thesis
  proof (cases "binade x = binade z")
    case True
    define q :: rat where "q = 2 powi (binade x - 52)"
    have q: "0 < q" by (simp add: q_def)
    have "x / q \<le> z / q" using assms(4) q by (simp add: divide_right_mono)
    from round_half_even_mono [OF this]
    have "rat_of_int (round_half_even (x / q)) \<le> of_int (round_half_even (z / q))"
      by (simp only: of_int_le_iff)
    then have "of_int (round_half_even (x / q)) * q \<le> of_int (round_half_even (z / q)) * q"
      using q by (intro mult_right_mono) simp_all
    moreover have "round_double x = of_int (round_half_even (x / q)) * q"
      unfolding q_def by (rule round_double_pos [OF assms(1,2)])
    moreover have "round_double z = of_int (round_half_even (z / q)) * q"
      unfolding q_def True by (rule round_double_pos [OF z bz])
    ultimately show ?thesis using assms(3) by simp
  next
    case False
    with m have "binade x + 1 \<le> binade z" by simp
    from powi_mono [OF this] have "x < 2 powi binade z"
      using binade_bounds(2) [OF assms(1)] by linarith
    also have "\<dots> \<le> round_double z" by (rule round_double_ge [OF z bz])
    finally show ?thesis by simp
  qed
qed

lemma round_double_percent:
  "round_double (1 / 100) = 5764607523034235 / 576460752303423488"
  by code_simp

lemma to_number_percent:
  "to_number (1 / 100) = Finite (5764607523034235 / 576460752303423488)"
  by code_simp

lemma percent_hi:
  "2 ^ 51 * ((1 + 1 / 2 ^ 53) * ((1 + 1 / 2 ^ 53) * (5764607523034235 / 576460752303423488)) - 1 / 100) < (1 / 100 :: rat)"
  by simp

lemma percent_lo:
  "2 ^ 51 * (1 / 100 - (1 - 1 / 2 ^ 53) * ((1 - 1 / 2 ^ 53) * (5764607523034235 / 576460752303423488))) < (1 / 100 :: rat)"
  by simp

lemma binade_lower: "0 < x \<Longrightarrow> 1 / 2 ^ n \<le> x \<Longrightarrow> - int n \<le> binade x"
  using powi_neg [of "int n"] by (intro binade_ge) simp_all

lemma to_number_small:
  assumes "0 < x" and "- 1022 \<le> binade x" and "x \<le> 2 ^ 60"
  shows "to_number x = Finite (round_double x)" and "0 < round_double x"
proof -
  have "0 < (2::rat) powi binade x" by simp
  also have "\<dots> \<le> round_double x" by (rule round_double_ge [OF assms(1,2)])
  finally show p: "0 < round_double x" .
  have "x / 2 ^ 53 \<le> x" using assms(1) by (simp add: field_simps)
  with round_double_error [OF assms(1,2)] have "round_double x \<le> 2 * x" by linarith
  also have "\<dots> \<le> 2 ^ 61" using assms(3) by simp
  also have "(2::rat) ^ 61 < 2 ^ 1024" by (rule power_strict_increasing) simp_all
  finally have "round_double x < 2 ^ 1024" .
  then show "to_number x = Finite (round_double x)"
    using p unfolding to_number_def Let_def by (simp only: not_le [symmetric] if_False) simp
qed

lemma round_double_of_int:
  assumes "0 < n" and "n < 2 ^ 53"
  shows "round_double (of_int n) = of_int n" and "- 1022 \<le> binade (of_int n)"
proof -
  have p: "0 < rat_of_int n" using assms(1) by simp
  have "(2::rat) powi 0 \<le> of_int n" using assms(1) by simp
  from binade_ge [OF p this] have lo: "0 \<le> binade (of_int n)" .
  then show b: "- 1022 \<le> binade (of_int n)" by simp
  have "rat_of_int n < of_int (2 ^ 53)" using assms(2) by (simp only: of_int_less_iff)
  then have "rat_of_int n < 2 powi 53" by simp
  from binade_less [OF p this] have hi: "binade (of_int n) - 52 \<le> 0" by simp
  show "round_double (of_int n) = of_int n"
    by (rule round_double_exact [OF p b _ hi]) simp
qed

lemma number_of_int_exact:
  assumes "0 < n" and "n < 2 ^ 53"
  shows "number_of_int n = Finite (of_int n)"
proof -
  have "rat_of_int n < of_int (2 ^ 53)" using assms(2) by (simp only: of_int_less_iff)
  then have "rat_of_int n \<le> 2 ^ 60" by simp
  from to_number_small(1) [OF _ round_double_of_int(2) [OF assms] this] assms(1)
  show ?thesis by (simp add: number_of_int_def round_double_of_int(1) [OF assms])
qed

lemma nearest_gap:
  fixes p t m :: int
  assumes "0 < t" and "rat_of_int m < of_int p / (100 * of_int t) + 1 / 2"
  shows "rat_of_int m + 1 / (100 * of_int t) \<le> of_int p / (100 * of_int t) + 1 / 2"
proof -
  have T: "0 < rat_of_int t" using assms(1) by simp
  have "rat_of_int m * (100 * of_int t) < of_int p + 50 * of_int t"
    using assms(2) T by (simp add: field_simps)
  then have "rat_of_int (m * (100 * t)) < of_int (p + 50 * t)" by simp
  then have "m * (100 * t) < p + 50 * t" by (simp only: of_int_less_iff)
  then have "m * (100 * t) + 1 \<le> p + 50 * t" by simp
  then have "rat_of_int (m * (100 * t) + 1) \<le> of_int (p + 50 * t)" by (simp only: of_int_le_iff)
  then have "rat_of_int m * (100 * of_int t) + 1 \<le> of_int p + 50 * of_int t" by simp
  then have "(rat_of_int m * (100 * of_int t) + 1) / (100 * of_int t)
      \<le> (of_int p + 50 * of_int t) / (100 * of_int t)"
    using T by (intro divide_right_mono) simp_all
  moreover have "(rat_of_int m * (100 * of_int t) + 1) / (100 * of_int t)
      = of_int m + 1 / (100 * of_int t)"
    using T by (simp add: add_divide_distrib)
  moreover have "(rat_of_int p + 50 * of_int t) / (100 * of_int t)
      = of_int p / (100 * of_int t) + 1 / 2"
    using T by (simp add: add_divide_distrib)
  ultimately show ?thesis by simp
qed

lemma nearest_gap_above:
  fixes p t m :: int
  assumes "0 < t" and "of_int p / (100 * of_int t) + 1 / 2 < rat_of_int m + 1"
  shows "of_int p / (100 * of_int t) + 1 / 2 + 1 / (100 * of_int t) \<le> rat_of_int m + 1"
proof -
  have T: "0 < rat_of_int t" using assms(1) by simp
  have "of_int p + 50 * of_int t < (rat_of_int m + 1) * (100 * of_int t)"
    using assms(2) T by (simp add: field_simps)
  then have "rat_of_int (p + 50 * t) < of_int ((m + 1) * (100 * t))" by simp
  then have "p + 50 * t < (m + 1) * (100 * t)" by (simp only: of_int_less_iff)
  then have "p + 50 * t + 1 \<le> (m + 1) * (100 * t)" by simp
  then have "rat_of_int (p + 50 * t + 1) \<le> of_int ((m + 1) * (100 * t))" by (simp only: of_int_le_iff)
  then have "of_int p + 50 * of_int t + 1 \<le> (rat_of_int m + 1) * (100 * of_int t)" by simp
  then show ?thesis using T by (simp add: field_simps)
qed

lemma quotient_bounds:
  fixes p t :: int
  assumes "0 < p" and "p \<le> 2 ^ 51" and "0 < t" and "t < 2 ^ 53"
  shows "0 < rat_of_int p / of_int t" and "1 / 2 ^ 53 \<le> rat_of_int p / of_int t"
    and "rat_of_int p / of_int t \<le> 2 ^ 51"
proof -
  have P: "1 \<le> rat_of_int p" using assms(1) by simp
  have T: "1 \<le> rat_of_int t" using assms(3) by simp
  have "rat_of_int p \<le> of_int (2 ^ 51)" using assms(2) by (simp only: of_int_le_iff)
  then have P2: "rat_of_int p \<le> 2 ^ 51" by simp
  have "rat_of_int t < of_int (2 ^ 53)" using assms(4) by (simp only: of_int_less_iff)
  then have T2: "rat_of_int t \<le> 2 ^ 53" by simp
  show "0 < rat_of_int p / of_int t" using P T by simp
  have "1 / 2 ^ 53 \<le> 1 / rat_of_int t" using T T2 by (simp add: field_simps)
  also have "\<dots> \<le> of_int p / of_int t" using P T by (intro divide_right_mono) simp_all
  finally show "1 / 2 ^ 53 \<le> rat_of_int p / of_int t" .
  have "rat_of_int p / of_int t \<le> of_int p / 1" using P T by (intro divide_left_mono) simp_all
  then show "rat_of_int p / of_int t \<le> 2 ^ 51" using P2 by simp
qed

lemma fee_value:
  fixes p t :: int
  assumes "0 < p" and "p \<le> 2 ^ 51" and "0 < t" and "t < 2 ^ 53"
  defines "a \<equiv> rat_of_int p / of_int t"
  defines "c \<equiv> 5764607523034235 / 576460752303423488 :: rat"
  shows "calculateReservationFee p t = Some \<lfloor>round_double (round_double a * c) + 1 / 2\<rfloor>"
    and "\<bar>round_double a - a\<bar> \<le> a / 2 ^ 53"
    and "\<bar>round_double (round_double a * c) - round_double a * c\<bar> \<le> round_double a * c / 2 ^ 53"
    and "- 1022 \<le> binade (round_double a * c)"
proof -
  note q = quotient_bounds [OF assms(1-4), folded a_def]
  have p53: "p < 2 ^ 53" using assms(2) by simp
  have ba: "- 1022 \<le> binade a" using binade_lower [OF q(1,2)] by simp
  have a60: "a \<le> 2 ^ 60" using q(3) by simp
  note na = to_number_small [OF q(1) ba a60]
  show ea: "\<bar>round_double a - a\<bar> \<le> a / 2 ^ 53" by (rule round_double_error [OF q(1) ba])
  define z where "z = round_double a * c"
  have c: "0 < c" "1 / 128 \<le> c" "c \<le> 1" by (simp_all add: c_def)
  have z: "0 < z" using na(2) c(1) by (simp add: z_def)
  have "a / 2 ^ 53 \<le> a / 2" using q(1) by simp
  with ea have ra: "a / 2 \<le> round_double a" "round_double a \<le> 2 * a" using q(1) by linarith+
  have "1 / 2 ^ 54 \<le> round_double a" using ra(1) q(2) by simp
  then have "1 / 2 ^ 54 * (1 / 128) \<le> round_double a * c"
    using c by (intro mult_mono) simp_all
  then have zl: "1 / 2 ^ 61 \<le> z" by (simp add: z_def)
  have bz: "- 1022 \<le> binade z" using binade_lower [OF z zl] by simp
  then show "- 1022 \<le> binade (round_double a * c)" by (simp add: z_def)
  have "round_double a * c \<le> round_double a * 1" using c na(2) by (intro mult_left_mono) simp_all
  then have z60: "z \<le> 2 ^ 60" using ra(2) q(3) by (simp add: z_def)
  note nz = to_number_small [OF z bz z60]
  show "\<bar>round_double (round_double a * c) - round_double a * c\<bar> \<le> round_double a * c / 2 ^ 53"
    using round_double_error [OF z bz] by (simp add: z_def)
  have t0: "rat_of_int t \<noteq> 0" using assms(3) by simp
  have "number_divide (number_of_int p) (number_of_int t) = Finite (round_double a)"
    using t0 by (simp add: number_of_int_exact [OF assms(1) p53] number_of_int_exact [OF assms(3,4)]
        na(1) a_def [symmetric])
  then show "calculateReservationFee p t = Some \<lfloor>round_double (round_double a * c) + 1 / 2\<rfloor>"
    by (simp add: calculateReservationFee_def to_number_percent c_def [symmetric] nz(1) [unfolded z_def])
qed

text \<open>
  The fee within the bounds. The quotient and the product are each rounded once, and
  \<^verbatim>\<open>0.01\<close> is a double slightly above one hundredth, so the product lies within
  \<open>1 / (100 * total_rooms)\<close> of the exact 1%. The exact value is a multiple of
  \<open>1 / (100 * total_rooms)\<close>: unless it is a tie it is at least that far from the
  nearest half-integer, and a tie is a double that the product cannot fall below.
\<close>

lemma percent_hi_pos:
  "0 \<le> (1 + 1 / 2 ^ 53) * ((1 + 1 / 2 ^ 53) * (5764607523034235 / 576460752303423488)) - (1 / 100 :: rat)"
  by simp

lemma percent_lo_pos:
  "0 \<le> (1 / 100 :: rat) - (1 - 1 / 2 ^ 53) * ((1 - 1 / 2 ^ 53) * (5764607523034235 / 576460752303423488))"
  by simp

lemma scaled_error:
  fixes p t :: int and e :: rat
  assumes "0 < p" and "p \<le> 2 ^ 51" and "0 < t" and "0 \<le> e" and "2 ^ 51 * e < 1 / 100"
  shows "rat_of_int p / of_int t * e < 1 / (100 * of_int t)"
proof -
  have T: "0 < rat_of_int t" using assms(3) by simp
  have "rat_of_int p \<le> of_int (2 ^ 51)" using assms(2) by (simp only: of_int_le_iff)
  then have "rat_of_int p \<le> 2 ^ 51" by simp
  then have "rat_of_int p * e \<le> 2 ^ 51 * e" using assms(4) by (rule mult_right_mono)
  then have "rat_of_int p * e < 1 / 100" using assms(5) by simp
  then have "rat_of_int p * e / of_int t < 1 / 100 / of_int t"
    using T by (rule divide_strict_right_mono)
  then show ?thesis by (simp add: mult.commute)
qed

lemma relative_bounds:
  fixes r a :: rat
  assumes "\<bar>r - a\<bar> \<le> a / 2 ^ 53"
  shows "r \<le> a * (1 + 1 / 2 ^ 53)" and "a * (1 - 1 / 2 ^ 53) \<le> r"
proof -
  define d where "d = a / 2 ^ 53"
  have e1: "a * (1 + 1 / 2 ^ 53) = a + d" unfolding d_def by (simp add: distrib_left)
  have e2: "a * (1 - 1 / 2 ^ 53) = a - d" unfolding d_def by (simp add: right_diff_distrib)
  have "\<bar>r - a\<bar> \<le> d" using assms by (simp only: d_def)
  then show "r \<le> a * (1 + 1 / 2 ^ 53)" and "a * (1 - 1 / 2 ^ 53) \<le> r"
    unfolding e1 e2 by linarith+
qed

lemma fee_nearest:
  fixes p t :: int
  assumes "0 < p" and "p \<le> 2 ^ 51" and "0 < t" and "t < 2 ^ 53"
  shows "calculateReservationFee p t = Some \<lfloor>rat_of_int p / (100 * of_int t) + 1 / 2\<rfloor>"
proof -
  define a where "a = rat_of_int p / of_int t"
  define c :: rat where "c = 5764607523034235 / 576460752303423488"
  define x where "x = rat_of_int p / (100 * of_int t)"
  define y where "y = round_double (round_double a * c)"
  define m where "m = \<lfloor>x + 1 / 2\<rfloor>"
  define hi where "hi = (1 + 1 / 2 ^ 53) * ((1 + 1 / 2 ^ 53) * c)"
  define lo where "lo = (1 - 1 / 2 ^ 53) * ((1 - 1 / 2 ^ 53) * c)"
  note fv = fee_value [OF assms, folded a_def c_def, folded y_def]
  note q = quotient_bounds [OF assms, folded a_def]
  have T: "0 < rat_of_int t" using assms(3) by simp
  have xa: "x = a / 100" by (simp add: x_def a_def)
  have c: "0 \<le> c" "1 / 100 \<le> c" by (simp_all add: c_def)
  have qa: "round_double a \<le> a * (1 + 1 / 2 ^ 53)" "a * (1 - 1 / 2 ^ 53) \<le> round_double a"
    by (rule relative_bounds [OF fv(2)])+
  have yz: "y \<le> round_double a * c * (1 + 1 / 2 ^ 53)" "round_double a * c * (1 - 1 / 2 ^ 53) \<le> y"
    by (rule relative_bounds [OF fv(3)])+
  have "round_double a * (c * (1 + 1 / 2 ^ 53)) \<le> a * (1 + 1 / 2 ^ 53) * (c * (1 + 1 / 2 ^ 53))"
    using qa(1) c(1) by (intro mult_right_mono) simp_all
  with yz(1) have yhi: "y \<le> a * hi" by (simp add: hi_def mult_ac)
  have "a * (1 - 1 / 2 ^ 53) * (c * (1 - 1 / 2 ^ 53)) \<le> round_double a * (c * (1 - 1 / 2 ^ 53))"
    using qa(2) c(1) by (intro mult_right_mono) simp_all
  with yz(2) have ylo: "a * lo \<le> y" by (simp add: lo_def mult_ac)
  have "a * (hi - 1 / 100) < 1 / (100 * of_int t)"
    unfolding a_def hi_def c_def
    by (rule scaled_error [OF assms(1-3) percent_hi_pos percent_hi])
  with yhi have up: "y - x < 1 / (100 * of_int t)" by (simp add: xa algebra_simps)
  have "a * (1 / 100 - lo) < 1 / (100 * of_int t)"
    unfolding a_def lo_def c_def
    by (rule scaled_error [OF assms(1-3) percent_lo_pos percent_lo])
  with ylo have down: "x - y < 1 / (100 * of_int t)" by (simp add: xa algebra_simps)
  have m1: "rat_of_int m \<le> x + 1 / 2" and m2: "x + 1 / 2 < rat_of_int m + 1"
    unfolding m_def by linarith+
  have one: "1 / (100 * rat_of_int t) \<le> 1" using assms(3) by simp
  have "\<lfloor>y + 1 / 2\<rfloor> = m"
  proof (cases "rat_of_int m = x + 1 / 2")
    case True
    have a_int: "a = rat_of_int (100 * m - 50)" using True by (simp add: xa)
    have a_pos: "0 < 100 * m - 50" using q(1) unfolding a_int by (simp only: of_int_0_less_iff)
    have "rat_of_int (100 * m - 50) \<le> 2 ^ 51" using q(3) by (simp only: a_int)
    then have "rat_of_int (100 * m - 50) \<le> of_int (2 ^ 51)" by simp
    then have "100 * m - 50 \<le> 2 ^ 51" by (simp only: of_int_le_iff)
    then have a_small: "100 * m - 50 < 2 ^ 53" by simp
    have ra: "round_double a = a"
      unfolding a_int by (rule round_double_of_int(1) [OF a_pos a_small])
    have xz: "x \<le> round_double a * c"
      using c(2) q(1) by (simp add: ra xa field_simps)
    have x_pos: "0 < x" using q(1) by (simp add: xa)
    have x_half: "x = rat_of_int (2 * m - 1) * 2 powi (- 1)"
      using True by (simp add: power_int_minus field_simps)
    have "0 < rat_of_int (2 * m - 1)" using x_pos unfolding x_half by (simp add: power_int_minus)
    then have "0 < 2 * m - 1" by (simp only: of_int_0_less_iff)
    then have "1 \<le> rat_of_int (2 * m - 1)" by simp
    then have "(2::rat) powi (- 1) \<le> x" unfolding x_half by (simp add: power_int_minus)
    from binade_ge [OF x_pos this] have bx: "- 1022 \<le> binade x" by simp
    have "x < 2 powi 51" using q(3) q(1) by (simp add: xa)
    from binade_less [OF x_pos this] have bx2: "binade x - 52 \<le> - 1" by simp
    have rx: "round_double x = x" by (rule round_double_exact [OF x_pos bx x_half bx2])
    have "x \<le> y" unfolding y_def by (rule round_double_above [OF x_pos bx rx xz])
    with True up one have "rat_of_int m \<le> y + 1 / 2" "y + 1 / 2 < rat_of_int m + 1" by linarith+
    then show ?thesis by linarith
  next
    case False
    with m1 have "rat_of_int m < x + 1 / 2" by simp
    then have "rat_of_int m + 1 / (100 * of_int t) \<le> x + 1 / 2"
      unfolding x_def by (rule nearest_gap [OF assms(3)])
    moreover have "x + 1 / 2 + 1 / (100 * of_int t) \<le> rat_of_int m + 1"
      using m2 unfolding x_def by (rule nearest_gap_above [OF assms(3)])
    ultimately have "rat_of_int m \<le> y + 1 / 2" "y + 1 / 2 < rat_of_int m + 1"
      using up down by linarith+
    then show ?thesis by linarith
  qed
  then show ?thesis by (simp add: fv(1) m_def x_def)
qed

section \<open>Properties of the fee calculator\<close>

lemma falsy_to_number: "falsy (to_number x) \<longleftrightarrow> round_double x = 0"
  by (simp add: to_number_def Let_def)

lemma number_of_int_truthy:
  assumes "0 < n"
  shows "\<not> falsy (number_of_int n)"
proof -
  have p: "0 < rat_of_int n" using assms by simp
  have "(2::rat) powi 0 \<le> of_int n" using assms by simp
  from binade_ge [OF p this] have b: "- 1022 \<le> binade (of_int n)" by simp
  have "0 < (2::rat) powi binade (of_int n)" by simp
  also have "\<dots> \<le> round_double (of_int n)" by (rule round_double_ge [OF p b])
  finally show ?thesis by (simp add: number_of_int_def falsy_to_number)
qed

text \<open>
  Claim C3, as stated: for all positive integers \<open>price\<close> and \<open>total_rooms\<close> the fee
  is 1% of the rent of one room rounded to the nearest integer. It fails where the
  doubles run out of digits. The landlord's form takes a rent of \<open>10 ^ 19\<close> for 3
  rooms; 1% of the rent of one room is \<open>33333333333333333 + 1 / 3\<close>, and the code
  returns \<open>33333333333333336\<close>.
\<close>

theorem calculateReservationFee_large_rent:
  "calculateReservationFee 10000000000000000000 3 = Some 33333333333333336
   \<and> LandlordDashboard_dynamicReservationFee 10000000000000000000 3 = Some 33333333333333336
   \<and> \<lfloor>rat_of_int 10000000000000000000 / rat_of_int 3 / 100 + 1 / 2\<rfloor> = 33333333333333333
   \<and> 1 / 2 < \<bar>rat_of_int 33333333333333336 - rat_of_int 10000000000000000000 / rat_of_int 3 / 100\<bar>"
proof -
  have a: "calculateReservationFee 10000000000000000000 3 = Some 33333333333333336"
    by code_simp
  have b: "LandlordDashboard_dynamicReservationFee 10000000000000000000 3 = Some 33333333333333336"
    by (simp add: LandlordDashboard_dynamicReservationFee_def a)
  have c: "\<lfloor>rat_of_int 10000000000000000000 / rat_of_int 3 / 100 + 1 / 2\<rfloor> = 33333333333333333"
    by code_simp
  have d: "1 / 2 < \<bar>rat_of_int 33333333333333336 - rat_of_int 10000000000000000000 / rat_of_int 3 / 100\<bar>"
    by simp
  from a b c d show ?thesis by blast
qed

text \<open>
  Claim C3, amended. For a positive \<open>price\<close> of at most \<open>2 ^ 51\<close> and a positive
  \<open>total_rooms\<close> below \<open>2 ^ 53\<close> (every value of the table's \<^verbatim>\<open>integer\<close> columns
  is far below both), the fee is 1% of the rent of one room rounded to the nearest
  integer, a tie upwards: the three roundings of the doubles do not move it.
  \<open>calculateReservationFee 180000 4 = 450\<close>. And for all positive \<open>price\<close> and
  \<open>total_rooms\<close>, the listing card, the landlord's live display, the multi-step form
  and the detail page's charge compute the same value for the same price and room
  count.
\<close>

theorem calculateReservationFee_round:
  assumes "0 < price p" and "0 < total_rooms p"
  shows "(price p \<le> 2 ^ 51 \<and> total_rooms p < 2 ^ 53 \<longrightarrow>
            calculateReservationFee (price p) (total_rooms p)
              = Some \<lfloor>rat_of_int (price p) / rat_of_int (total_rooms p) / 100 + 1 / 2\<rfloor>
            \<and> (\<exists>fee. calculateReservationFee (price p) (total_rooms p) = Some fee
                  \<and> \<bar>rat_of_int fee - rat_of_int (price p) / rat_of_int (total_rooms p) / 100\<bar>
                      \<le> 1 / 2))
         \<and> calculateReservationFee 180000 4 = Some 450
         \<and> PropertyCard_dynamicReservationFee p = PropertyDetailPage_dynamicReservationFee p
         \<and> LandlordDashboard_dynamicReservationFee (price p) (total_rooms p)
             = PropertyDetailPage_dynamicReservationFee p
         \<and> calcReservationFee (price p) (total_rooms p)
             = PropertyDetailPage_dynamicReservationFee p"
proof -
  let ?x = "rat_of_int (price p) / rat_of_int (total_rooms p) / 100"
  have fee: "calculateReservationFee (price p) (total_rooms p) = Some \<lfloor>?x + 1 / 2\<rfloor>"
    if "price p \<le> 2 ^ 51 \<and> total_rooms p < 2 ^ 53"
    using fee_nearest [OF assms(1) _ assms(2), of ] that by (simp add: divide_divide_eq_left mult.commute)
  have near: "\<bar>rat_of_int \<lfloor>?x + 1 / 2\<rfloor> - ?x\<bar> \<le> 1 / 2"
    by linarith
  have ex: "calculateReservationFee 180000 4 = Some 450"
    by code_simp
  have sites: "PropertyCard_dynamicReservationFee p = PropertyDetailPage_dynamicReservationFee p"
    by (simp add: PropertyCard_dynamicReservationFee_def PropertyDetailPage_dynamicReservationFee_def)
  have live: "LandlordDashboard_dynamicReservationFee (price p) (total_rooms p)
                = PropertyDetailPage_dynamicReservationFee p"
    using assms
    by (simp add: LandlordDashboard_dynamicReservationFee_def PropertyDetailPage_dynamicReservationFee_def)
  have form: "calcReservationFee (price p) (total_rooms p)
                = PropertyDetailPage_dynamicReservationFee p"
    using number_of_int_truthy [OF assms(1)] number_of_int_truthy [OF assms(2)]
    by (simp add: calcReservationFee_def PropertyDetailPage_dynamicReservationFee_def
        calculateReservationFee_def Let_def)
  from fee near ex sites live form show ?thesis by auto
qed

theorem calculateReservationFee_round_witness:
  "calculateReservationFee 250000 3 = Some 833
   \<and> PropertyCard_dynamicReservationFee
       \<lparr>p_id = 2, location = ''Near UNILAG, Akoka'', detailed_location = ''Block 5, Flat 12'',
        rooms_available = 2, total_rooms = 3, price = 250000, reservation_fee = 7500,
        is_verified = True, video_url = None, landlord_id = 1\<rparr> = Some 833
   \<and> calcReservationFee 250000 3 = Some 833"
proof -
  let ?p = "\<lparr>p_id = 2, location = ''Near UNILAG, Akoka'', detailed_location = ''Block 5, Flat 12'',
        rooms_available = 2, total_rooms = 3, price = 250000, reservation_fee = 7500,
        is_verified = True, video_url = None, landlord_id = 1\<rparr>"
  have h1: "0 < price ?p" by simp
  have h2: "0 < total_rooms ?p" by simp
  have h3: "price ?p \<le> 2 ^ 51 \<and> total_rooms ?p < 2 ^ 53" by simp
  have r: "\<lfloor>rat_of_int 250000 / rat_of_int 3 / 100 + 1 / 2\<rfloor> = 833"
    by code_simp
  note t = calculateReservationFee_round [OF h1 h2]
  from t h3 have "calculateReservationFee (price ?p) (total_rooms ?p)
              = Some \<lfloor>rat_of_int (price ?p) / rat_of_int (total_rooms ?p) / 100 + 1 / 2\<rfloor>"
    by blast
  then have fee: "calculateReservationFee 250000 3 = Some 833" using r by simp
  from t have card: "PropertyCard_dynamicReservationFee ?p = calculateReservationFee 250000 3"
    by (simp add: PropertyDetailPage_dynamicReservationFee_def)
  from t have form: "calcReservationFee 250000 3 = calculateReservationFee 250000 3"
    by (simp add: PropertyDetailPage_dynamicReservationFee_def)
  from fee card form show ?thesis by simp
qed

section \<open>The room counters stay within bounds\<close>

lemma update_properties_Inr:
  "update_properties a wh f ps = Inr ps' \<longleftrightarrow>
     ((\<forall>p\<in>set ps. wh p \<and> properties_update_policy a p \<longrightarrow> properties_checks (f p))
      \<and> ps' = map (\<lambda>p. if wh p \<and> properties_update_policy a p then f p else p) ps)"
  by (auto simp: update_properties_def Let_def list_all_iff)

lemma update_properties_valid:
  assumes "update_properties a wh f ps = Inr ps'" and "list_all valid_room_count ps"
  shows "list_all valid_room_count ps'"
  using assms by (auto simp: update_properties_Inr list_all_iff properties_checks_def)

lemma handle_reservation_insert_valid:
  "handle_reservation_insert a NEW ps = Inr ps' \<Longrightarrow> list_all valid_room_count ps
     \<Longrightarrow> list_all valid_room_count ps'"
  by (auto simp: handle_reservation_insert_def split: if_splits dest: update_properties_valid)

lemma handle_reservation_update_valid:
  "handle_reservation_update a OLD NEW ps = Inr ps' \<Longrightarrow> list_all valid_room_count ps
     \<Longrightarrow> list_all valid_room_count ps'"
  by (auto simp: handle_reservation_update_def split: if_splits dest: update_properties_valid)

lemma insert_reservation_valid:
  "insert_reservation a sid pid st ug d = Inr d' \<Longrightarrow> room_counts_valid d \<Longrightarrow> room_counts_valid d'"
  by (auto simp: insert_reservation_def room_counts_valid_def Let_def
      split: if_splits sum.splits dest: handle_reservation_insert_valid)

lemma update_payment_status_rows_valid:
  "update_payment_status_rows a rid st rs ps = Inr (rs', ps') \<Longrightarrow> list_all valid_room_count ps
     \<Longrightarrow> list_all valid_room_count ps'"
proof (induction rs arbitrary: ps rs' ps')
  case Nil
  then show ?case by simp
next
  case (Cons OLD rs)
  then show ?case
    by (auto simp: Let_def split: if_splits sum.splits prod.splits
        dest: handle_reservation_update_valid)
qed

lemma update_payment_status_valid:
  "update_payment_status a rid st d = Inr d' \<Longrightarrow> room_counts_valid d \<Longrightarrow> room_counts_valid d'"
  by (auto simp: update_payment_status_def room_counts_valid_def
      split: sum.splits prod.splits dest: update_payment_status_rows_valid)

lemma rpc_decrement_rooms_valid:
  "list_all valid_room_count ps \<Longrightarrow> list_all valid_room_count (rpc_decrement_rooms f a pid ps)"
  by (auto simp: rpc_decrement_rooms_def Let_def list_all_iff properties_checks_def)

lemma requestRefund_valid:
  "room_counts_valid d \<Longrightarrow> room_counts_valid (snd (requestRefund cf ok a rid d))"
  by (auto simp: requestRefund_def split: sum.splits dest: update_payment_status_valid)

lemma handlePaymentSuccess_db:
  "user c = Some uid \<Longrightarrow> property c = Some prop \<Longrightarrow>
   snd (handlePaymentSuccess net rpc c d) =
     (case check_existing net uid prop d of
        Some existing \<Rightarrow> d
      | None \<Rightarrow>
          (case create_reservation net uid prop d of
             Inl e \<Rightarrow> d
           | Inr d1 \<Rightarrow>
               update_new_rooms net uid prop
                 (call_decrement_rooms net rpc uid prop (reduce_available_rooms net uid prop d1))))"
  by (simp add: handlePaymentSuccess_def Let_def split: option.splits sum.splits)

lemma handlePaymentSuccess_db_idle:
  "user c = None \<or> property c = None \<Longrightarrow> snd (handlePaymentSuccess net rpc c d) = d"
  by (auto simp: handlePaymentSuccess_def split: option.splits)

lemma reduce_available_rooms_valid:
  "room_counts_valid d \<Longrightarrow> room_counts_valid (reduce_available_rooms net uid prop d)"
  by (auto simp: reduce_available_rooms_def room_counts_valid_def
      split: sum.splits if_splits dest: update_properties_valid)

lemma call_decrement_rooms_valid:
  "room_counts_valid d \<Longrightarrow> room_counts_valid (call_decrement_rooms net rpc uid prop d)"
  by (simp add: call_decrement_rooms_def room_counts_valid_def rpc_decrement_rooms_valid)

lemma update_new_rooms_valid:
  "room_counts_valid d \<Longrightarrow> room_counts_valid (update_new_rooms net uid prop d)"
  by (auto simp: update_new_rooms_def room_counts_valid_def Let_def
      split: sum.splits if_splits dest: update_properties_valid)

lemma create_reservation_valid:
  "create_reservation net uid prop d = Inr d1 \<Longrightarrow> room_counts_valid d \<Longrightarrow> room_counts_valid d1"
  by (auto simp: create_reservation_def split: if_splits dest: insert_reservation_valid)

lemma handlePaymentSuccess_valid:
  assumes "room_counts_valid d"
  shows "room_counts_valid (snd (handlePaymentSuccess net rpc c d))"
proof (cases "user c")
  case None
  then show ?thesis using assms by (simp add: handlePaymentSuccess_db_idle)
next
  case u: (Some uid)
  show ?thesis
  proof (cases "property c")
    case None
    then show ?thesis using assms by (simp add: handlePaymentSuccess_db_idle)
  next
    case p: (Some pr)
    note db = handlePaymentSuccess_db [OF u p]
    show ?thesis
      using assms
      by (auto simp: db split: option.splits sum.splits
          intro!: update_new_rooms_valid call_decrement_rooms_valid reduce_available_rooms_valid
          dest: create_reservation_valid)
  qed
qed

lemma handleSubmitProperty_valid:
  "room_counts_valid d \<Longrightarrow> room_counts_valid (snd (handleSubmitProperty ok u f e d))"
  by (auto simp: handleSubmitProperty_def room_counts_valid_def Let_def insert_property_def
        properties_checks_def
      split: option.splits sum.splits if_splits dest: update_properties_valid)

lemma MultiStepPropertyForm_update_valid:
  "room_counts_valid d
     \<Longrightarrow> room_counts_valid (snd (MultiStepPropertyForm_update ok msg cols u f e d))"
  by (auto simp: MultiStepPropertyForm_update_def room_counts_valid_def
      split: sum.splits if_splits option.splits dest: update_properties_valid)


text \<open>
  Claim C9. Every operation that writes a property's room counters keeps
  \<open>0 \<le> rooms_available \<le> total_rooms\<close> on every row: the unlock
  (\<open>handlePaymentSuccess\<close>, whatever the page's copy of the row, whatever requests
  fail and whatever \<^verbatim>\<open>decrement_rooms\<close> is), the refund (\<open>requestRefund\<close>) and the
  landlord's edits (\<open>handleSubmitProperty\<close> and the multi-step form's update).
\<close>

theorem room_counts_preserved:
  assumes "room_counts_valid d"
  shows "room_counts_valid (snd (handlePaymentSuccess net decrement_rooms c d))
         \<and> room_counts_valid (snd (requestRefund confirmed net_ok auth_uid reservationId d))
         \<and> room_counts_valid (snd (handleSubmitProperty net_ok user_id formData editingProperty d))
         \<and> room_counts_valid (snd (MultiStepPropertyForm_update net_ok message columns auth_uid formData
                propertyToEdit d))"
  using assms
  by (simp add: handlePaymentSuccess_valid requestRefund_valid handleSubmitProperty_valid
      MultiStepPropertyForm_update_valid)

theorem room_counts_preserved_witness:
  "room_counts_valid sample_db
   \<and> room_counts_valid (snd (handlePaymentSuccess all_ok decrement_rooms_undefined sample_page sample_db))
   \<and> room_counts_valid (snd (requestRefund True True 1 1 sample_db))
   \<and> room_counts_valid (snd (handleSubmitProperty True (Some 9) sample_form (Some 10) sample_db))
   \<and> room_counts_valid (snd (MultiStepPropertyForm_update True no_message deployed_columns 9
          sample_form 10 sample_db))
   \<and> rooms_available_of 10 (snd (handleSubmitProperty True (Some 9) sample_form (Some 10) sample_db))
       = Some 3"
proof -
  have h: "room_counts_valid sample_db" by code_simp
  have rejected: "rooms_available_of 10
      (snd (handleSubmitProperty True (Some 9) sample_form (Some 10) sample_db)) = Some 3"
    by code_simp
  from h rejected room_counts_preserved [OF h] show ?thesis by blast
qed

section \<open>The refund\<close>

lemma update_payment_status_rows_rows:
  "update_payment_status_rows a rid st rs ps = Inr (rs', ps')
     \<Longrightarrow> rs' = map (\<lambda>r. if r_id r = rid \<and> reservations_update_policy a r
                           then r\<lparr>r_payment_status := st\<rparr> else r) rs"
proof (induction rs arbitrary: ps rs' ps')
  case Nil
  then show ?case by simp
next
  case (Cons OLD rs)
  then show ?case
    by (auto simp: Let_def split: if_splits sum.splits prod.splits)
qed

lemma update_payment_status_rows_no_paid:
  "\<forall>r\<in>set rs. r_id r = rid \<and> reservations_update_policy a r \<longrightarrow> r_payment_status r \<noteq> paid
     \<Longrightarrow> \<exists>rs'. update_payment_status_rows a rid st rs ps = Inr (rs', ps)"
proof (induction rs)
  case Nil
  then show ?case by simp
next
  case (Cons OLD rs)
  then obtain rs' where "update_payment_status_rows a rid st rs ps = Inr (rs', ps)" by auto
  with Cons.prems show ?case
    by (auto simp: Let_def handle_reservation_update_def)
qed

lemma update_payment_status_rows_no_match:
  "\<forall>r\<in>set rs. r_id r \<noteq> rid \<Longrightarrow> update_payment_status_rows a rid st rs ps = Inr (rs, ps)"
  by (induction rs) auto

lemma rose_refl: "rose_by_at_most_one ps ps"
  by (simp add: rose_by_at_most_one_def list_all2_same)


lemma handle_reservation_update_rose:
  "handle_reservation_update a OLD NEW ps = Inr ps' \<Longrightarrow> rose_by_at_most_one ps ps'"
  by (auto simp: handle_reservation_update_def update_properties_Inr rose_by_at_most_one_def
      list_all2_map2 list_all2_same split: if_splits)

lemma update_payment_status_rows_rose:
  "distinct (map r_id rs) \<Longrightarrow> update_payment_status_rows a rid st rs ps = Inr (rs', ps')
     \<Longrightarrow> rose_by_at_most_one ps ps'"
proof (induction rs arbitrary: ps rs' ps')
  case Nil
  then show ?case by (simp add: rose_refl)
next
  case (Cons OLD rs)
  show ?case
  proof (cases "r_id OLD = rid")
    case True
    with Cons.prems(1) have nomatch: "\<forall>r\<in>set rs. r_id r \<noteq> rid" by (auto simp: image_iff)
    show ?thesis
      using Cons.prems(2) True
      by (auto simp: Let_def update_payment_status_rows_no_match [OF nomatch] rose_refl
          split: if_splits sum.splits dest: handle_reservation_update_rose)
  next
    case False
    with Cons show ?thesis
      by (auto split: sum.splits)
  qed
qed


lemma requestRefund_cases:
  "snd (requestRefund cf ok a rid d) = d
   \<or> (\<exists>d'. update_payment_status a rid refunded d = Inr d' \<and> snd (requestRefund cf ok a rid d) = d')"
  by (auto simp: requestRefund_def split: sum.splits)

lemma update_payment_status_Inr:
  assumes "update_payment_status a rid st d = Inr d'"
  shows "\<exists>ps'. update_payment_status_rows a rid st (reservations d) (properties d)
            = Inr (reservations d', ps') \<and> properties d' = ps' \<and> users d' = users d"
  using assms by (auto simp: update_payment_status_def split: sum.splits prod.splits)

lemma update_payment_status_refunded_again:
  assumes "update_payment_status a rid refunded d = Inr d1"
  shows "\<exists>rs. update_payment_status_rows a rid refunded (reservations d1) (properties d1)
            = Inr (rs, properties d1)"
proof -
  from update_payment_status_Inr [OF assms] obtain ps' where
    rows: "update_payment_status_rows a rid refunded (reservations d) (properties d)
             = Inr (reservations d1, ps')" by blast
  have eq: "reservations d1 = map (\<lambda>r. if r_id r = rid \<and> reservations_update_policy a r
                           then r\<lparr>r_payment_status := refunded\<rparr> else r) (reservations d)"
    by (rule update_payment_status_rows_rows [OF rows])
  have "\<forall>r\<in>set (reservations d1). r_id r = rid \<and> reservations_update_policy a r
          \<longrightarrow> r_payment_status r \<noteq> paid"
  proof (intro ballI impI)
    fix r assume r: "r \<in> set (reservations d1)"
      and m: "r_id r = rid \<and> reservations_update_policy a r"
    from r have "r \<in> (\<lambda>r. if r_id r = rid \<and> reservations_update_policy a r
                           then r\<lparr>r_payment_status := refunded\<rparr> else r) ` set (reservations d)"
      unfolding eq by simp
    then obtain r0 where r0: "r = (if r_id r0 = rid \<and> reservations_update_policy a r0
                           then r0\<lparr>r_payment_status := refunded\<rparr> else r0)"
      by (rule imageE)
    show "r_payment_status r \<noteq> paid"
    proof (cases "r_id r0 = rid \<and> reservations_update_policy a r0")
      case True
      with r0 show ?thesis by simp
    next
      case False
      with r0 have "r = r0" by simp
      with m False show ?thesis by simp
    qed
  qed
  then show ?thesis by (rule update_payment_status_rows_no_paid)
qed

lemma requestRefund_second_call:
  assumes "update_payment_status a rid refunded d = Inr d1"
  shows "properties (snd (requestRefund cf ok a rid d1)) = properties d1"
proof -
  from update_payment_status_refunded_again [OF assms] obtain rs where
    "update_payment_status_rows a rid refunded (reservations d1) (properties d1)
       = Inr (rs, properties d1)" by blast
  then show ?thesis
    by (simp add: requestRefund_def update_payment_status_def)
qed

lemma update_payment_status_rose:
  assumes "distinct (map r_id (reservations d))" and "update_payment_status a rid st d = Inr d'"
  shows "rose_by_at_most_one (properties d) (properties d')"
  using update_payment_status_Inr [OF assms(2)] update_payment_status_rows_rose [OF assms(1)]
  by blast

lemma requestRefund_rose:
  assumes "distinct (map r_id (reservations d))"
  shows "rose_by_at_most_one (properties d) (properties (snd (requestRefund cf ok a rid d)))"
  using requestRefund_cases [of cf ok a rid d] update_payment_status_rose [OF assms]
  by (auto simp: rose_refl)

text \<open>
  Claim C10. Two calls of \<open>requestRefund\<close> for the same reservation by the same
  principal raise no row's \<^verbatim>\<open>rooms_available\<close> by more than one in total, and once
  the first call's update has succeeded the second call leaves the \<^verbatim>\<open>properties\<close>
  table as it is: the trigger fires on \<^verbatim>\<open>paid\<close> to \<^verbatim>\<open>refunded\<close> only, and the
  second update finds \<^verbatim>\<open>refunded\<close>. The primary key of \<^verbatim>\<open>reservations\<close> is
  assumed.
\<close>

theorem requestRefund_twice:
  assumes "distinct (map r_id (reservations d))"
  shows "rose_by_at_most_one (properties d)
           (properties (snd (requestRefund cf2 ok2 a rid (snd (requestRefund cf1 ok1 a rid d)))))
         \<and> (update_payment_status a rid refunded d = Inr d1
              \<longrightarrow> properties (snd (requestRefund cf2 ok2 a rid d1)) = properties d1)"
proof -
  have second: "update_payment_status a rid refunded d = Inr d1
              \<longrightarrow> properties (snd (requestRefund cf2 ok2 a rid d1)) = properties d1"
    by (simp add: requestRefund_second_call)
  from requestRefund_cases [of cf1 ok1 a rid d]
  have "rose_by_at_most_one (properties d)
           (properties (snd (requestRefund cf2 ok2 a rid (snd (requestRefund cf1 ok1 a rid d)))))"
  proof
    assume "snd (requestRefund cf1 ok1 a rid d) = d"
    then show ?thesis using requestRefund_rose [OF assms] by simp
  next
    assume "\<exists>d'. update_payment_status a rid refunded d = Inr d'
                \<and> snd (requestRefund cf1 ok1 a rid d) = d'"
    then obtain d' where u: "update_payment_status a rid refunded d = Inr d'"
      and s: "snd (requestRefund cf1 ok1 a rid d) = d'" by blast
    from requestRefund_second_call [OF u] update_payment_status_rose [OF assms u] s
    show ?thesis by simp
  qed
  with second show ?thesis by blast
qed

theorem requestRefund_twice_witness:
  "distinct (map r_id (reservations sample_db_own))
   \<and> rooms_available_of 10 sample_db_own = Some 3
   \<and> rooms_available_of 10 (snd (requestRefund True True 9 1 sample_db_own)) = Some 4
   \<and> rooms_available_of 10
        (snd (requestRefund True True 9 1 (snd (requestRefund True True 9 1 sample_db_own))))
       = Some 4
   \<and> rose_by_at_most_one (properties sample_db_own)
        (properties
          (snd (requestRefund True True 9 1 (snd (requestRefund True True 9 1 sample_db_own)))))"
proof -
  have h: "distinct (map r_id (reservations sample_db_own))" by code_simp
  have r0: "rooms_available_of 10 sample_db_own = Some 3" by code_simp
  have r1: "rooms_available_of 10 (snd (requestRefund True True 9 1 sample_db_own)) = Some 4"
    by code_simp
  have r2: "rooms_available_of 10
        (snd (requestRefund True True 9 1 (snd (requestRefund True True 9 1 sample_db_own))))
       = Some 4"
    by code_simp
  from requestRefund_twice [OF h, of True True 9 1 True True]
  have "rose_by_at_most_one (properties sample_db_own)
        (properties
          (snd (requestRefund True True 9 1 (snd (requestRefund True True 9 1 sample_db_own)))))"
    by blast
  with h r0 r1 r2 show ?thesis by blast
qed

lemma requestRefund_status_only:
  "list_all2 (\<lambda>r r'. r' = r\<lparr>r_payment_status := r_payment_status r'\<rparr>)
     (reservations d) (reservations (snd (requestRefund cf ok a rid d)))
   \<and> users (snd (requestRefund cf ok a rid d)) = users d"
proof -
  from requestRefund_cases [of cf ok a rid d] show ?thesis
  proof
    assume "snd (requestRefund cf ok a rid d) = d"
    then show ?thesis by (simp add: list_all2_same)
  next
    assume "\<exists>d'. update_payment_status a rid refunded d = Inr d'
                \<and> snd (requestRefund cf ok a rid d) = d'"
    then obtain d' where u: "update_payment_status a rid refunded d = Inr d'"
      and s: "snd (requestRefund cf ok a rid d) = d'" by blast
    from update_payment_status_Inr [OF u] obtain ps' where
      rows: "update_payment_status_rows a rid refunded (reservations d) (properties d)
             = Inr (reservations d', ps')" and us: "users d' = users d" by blast
    show ?thesis
      unfolding s using us
      by (simp add: update_payment_status_rows_rows [OF rows] list_all2_map2 list_all2_same)
  qed
qed

lemma status_only_columns:
  assumes "r' = r\<lparr>r_payment_status := st\<rparr>"
  shows "unlock_granted r' = unlock_granted r \<and> r_id r' = r_id r
         \<and> student_id r' = student_id r \<and> property_id r' = property_id r"
  using assms by simp

lemma status_only_maps:
  assumes "list_all2 (\<lambda>r r'. r' = r\<lparr>r_payment_status := r_payment_status r'\<rparr>) rs rs'"
  shows "map unlock_granted rs' = map unlock_granted rs \<and> map r_id rs' = map r_id rs
         \<and> map student_id rs' = map student_id rs \<and> map property_id rs' = map property_id rs"
  using assms
proof (induction rule: list_all2_induct)
  case Nil
  then show ?case by simp
next
  case (Cons r rs r' rs')
  from status_only_columns [OF Cons.hyps(1)] Cons.IH show ?case by simp
qed

text \<open>
  Claim C8. \<open>requestRefund\<close> changes no column of a reservation but
  \<^verbatim>\<open>payment_status\<close>: every row afterwards is the row before with, at most, a new
  status, so \<^verbatim>\<open>unlock_granted\<close> stays as it was (true for an unlocked reservation);
  no row is added or removed, and \<^verbatim>\<open>users\<close> is untouched.
\<close>

theorem requestRefund_frame:
  "list_all2 (\<lambda>r r'. r' = r\<lparr>r_payment_status := r_payment_status r'\<rparr>)
     (reservations d) (reservations (snd (requestRefund cf ok a rid d)))
   \<and> map unlock_granted (reservations (snd (requestRefund cf ok a rid d)))
       = map unlock_granted (reservations d)
   \<and> users (snd (requestRefund cf ok a rid d)) = users d"
  using requestRefund_status_only [of d cf ok a rid] status_only_maps by blast

theorem requestRefund_frame_witness:
  "reservations (snd (requestRefund True True 1 1 sample_db_paid))
     = [\<lparr>r_id = 1, student_id = 1, property_id = 10, r_payment_status = refunded,
         unlock_granted = True\<rparr>]
   \<and> map unlock_granted (reservations (snd (requestRefund True True 1 1 sample_db_paid)))
       = [True]
   \<and> list_all2 (\<lambda>r r'. r' = r\<lparr>r_payment_status := r_payment_status r'\<rparr>)
        (reservations sample_db_paid)
        (reservations (snd (requestRefund True True 1 1 sample_db_paid)))"
proof -
  have e: "reservations (snd (requestRefund True True 1 1 sample_db_paid))
     = [\<lparr>r_id = 1, student_id = 1, property_id = 10, r_payment_status = refunded,
         unlock_granted = True\<rparr>]"
    by code_simp
  have u: "map unlock_granted (reservations sample_db_paid) = [True]" by code_simp
  note t = requestRefund_frame [of sample_db_paid True True 1 1]
  from t u have m: "map unlock_granted (reservations (snd (requestRefund True True 1 1 sample_db_paid)))
       = [True]" by simp
  from e m t show ?thesis by blast
qed

section \<open>The unlock\<close>

lemma reduce_available_rooms_frame:
  "reservations (reduce_available_rooms net uid pr d) = reservations d
   \<and> users (reduce_available_rooms net uid pr d) = users d"
  by (simp add: reduce_available_rooms_def split: sum.splits)

lemma call_decrement_rooms_frame:
  "reservations (call_decrement_rooms net rpc uid pr d) = reservations d
   \<and> users (call_decrement_rooms net rpc uid pr d) = users d"
  by (simp add: call_decrement_rooms_def)

lemma update_new_rooms_frame:
  "reservations (update_new_rooms net uid pr d) = reservations d
   \<and> users (update_new_rooms net uid pr d) = users d"
  by (simp add: update_new_rooms_def Let_def split: sum.splits)

lemma insert_reservation_Inr:
  assumes "insert_reservation a sid pid st ug d = Inr d1"
  shows "reservations d1 = reservations d @
           [\<lparr>r_id = gen_random_uuid (reservations d), student_id = sid, property_id = pid,
             r_payment_status = st, unlock_granted = ug\<rparr>]
         \<and> users d1 = users d
         \<and> \<not> list_ex (\<lambda>r. student_id r = sid \<and> property_id r = pid) (reservations d)"
  using assms
  by (auto simp: insert_reservation_def Let_def split: if_splits sum.splits)

lemma create_reservation_Inr:
  assumes "create_reservation net uid pr d = Inr d1"
  shows "reservations d1 = reservations d @
           [\<lparr>r_id = gen_random_uuid (reservations d), student_id = uid, property_id = p_id pr,
             r_payment_status = paid, unlock_granted = True\<rparr>]
         \<and> users d1 = users d
         \<and> \<not> list_ex (\<lambda>r. student_id r = uid \<and> property_id r = p_id pr) (reservations d)"
  using assms insert_reservation_Inr [of uid uid "p_id pr" paid True d d1]
  by (simp add: create_reservation_def split: if_splits)

lemma maybeSingle_nonempty: "rows \<noteq> [] \<Longrightarrow> maybeSingle rows \<noteq> Inr None"
  by (cases rows) (auto simp: maybeSingle_def split: list.splits)

lemma fetchProperty_keeps_unlocked:
  assumes "isUnlocked c" and "user c = Some uid"
    and "list_ex (\<lambda>r. student_id r = uid \<and> property_id r = route_id c \<and> unlock_granted r)
           (reservations d)"
  shows "isUnlocked (fetchProperty net d c)"
proof -
  let ?c = "c\<lparr>loading := True, error := None\<rparr>"
  let ?rows = "select_reservations uid
      (\<lambda>r. student_id r = uid \<and> property_id r = route_id c \<and> unlock_granted r = True) d"
  from assms(3) have "?rows \<noteq> []"
    by (auto simp: select_reservations_def reservations_select_policy_def list_ex_iff filter_empty_conv)
  then have "maybeSingle ?rows \<noteq> Inr None" by (rule maybeSingle_nonempty)
  then have ne: "select_unlock_row net d ?c uid \<noteq> Inr None"
    by (simp add: select_unlock_row_def)
  show ?thesis
  proof (cases "select_unlock_row net d ?c uid")
    case (Inl e)
    with assms(1,2) show ?thesis
      by (simp add: fetchProperty_def Let_def split: sum.splits option.splits)
  next
    case (Inr data)
    with ne obtain row where "select_unlock_row net d ?c uid = Inr (Some row)"
      by (cases data) auto
    with assms(1,2) show ?thesis
      by (simp add: fetchProperty_def Let_def split: sum.splits option.splits)
  qed
qed

lemma fetchProperty_toasts: "toasts (fetchProperty net d c) = toasts c"
  by (simp add: fetchProperty_def Let_def split: sum.splits option.splits)

lemma handlePaymentSuccess_page:
  assumes "user c = Some uid" and "property c = Some pr"
    and "check_existing net uid pr d = None"
    and "create_reservation net uid pr d = Inr d1"
  shows "fst (handlePaymentSuccess net rpc c d) =
           (fetchProperty net (snd (handlePaymentSuccess net rpc c d))
              (c\<lparr>paymentLoading := True, isUnlocked := True,
                 toasts := toasts c @
                   [toast_success ''Property unlocked! You can now view full details and contact the landlord.'']\<rparr>))
             \<lparr>paymentLoading := False\<rparr>"
  using assms by (simp add: handlePaymentSuccess_def Let_def)

text \<open>
  Claim C7. Once the insert of the reservation has succeeded, the row stands and the
  unlock stays granted whatever becomes of the statements on the counter: whether
  they fail, are rejected, or touch no row, whatever the page's copy of the row and
  whatever \<^verbatim>\<open>decrement_rooms\<close> is. The \<^verbatim>\<open>reservations\<close> table at the end is the
  table before with the new paid, unlocked row; the page is unlocked and shows the
  success toast.
\<close>

theorem unlock_stands:
  assumes "user c = Some uid" and "property c = Some pr" and "route_id c = p_id pr"
    and "check_existing net uid pr d = None"
    and "create_reservation net uid pr d = Inr d1"
  shows "reservations (snd (handlePaymentSuccess net decrement_rooms c d))
           = reservations d @
               [\<lparr>r_id = gen_random_uuid (reservations d), student_id = uid, property_id = p_id pr,
                 r_payment_status = paid, unlock_granted = True\<rparr>]
         \<and> isUnlocked (fst (handlePaymentSuccess net decrement_rooms c d))
         \<and> toasts (fst (handlePaymentSuccess net decrement_rooms c d))
             = toasts c @
                 [toast_success ''Property unlocked! You can now view full details and contact the landlord.'']"
proof -
  let ?d' = "snd (handlePaymentSuccess net decrement_rooms c d)"
  let ?NEW = "\<lparr>r_id = gen_random_uuid (reservations d), student_id = uid, property_id = p_id pr,
                 r_payment_status = paid, unlock_granted = True\<rparr>"
  have db: "?d' = update_new_rooms net uid pr
                 (call_decrement_rooms net decrement_rooms uid pr (reduce_available_rooms net uid pr d1))"
    using assms by (simp add: handlePaymentSuccess_db)
  have rs: "reservations ?d' = reservations d @ [?NEW]"
    unfolding db using create_reservation_Inr [OF assms(5)]
    by (simp add: update_new_rooms_frame call_decrement_rooms_frame reduce_available_rooms_frame)
  let ?c1 = "c\<lparr>paymentLoading := True, isUnlocked := True,
                 toasts := toasts c @
                   [toast_success ''Property unlocked! You can now view full details and contact the landlord.'']\<rparr>"
  have pg: "fst (handlePaymentSuccess net decrement_rooms c d)
              = (fetchProperty net ?d' ?c1)\<lparr>paymentLoading := False\<rparr>"
    by (rule handlePaymentSuccess_page [OF assms(1,2,4,5)])
  have ex: "list_ex (\<lambda>r. student_id r = uid \<and> property_id r = route_id ?c1 \<and> unlock_granted r)
           (reservations ?d')"
    unfolding rs using assms(3) by (simp add: list_ex_iff)
  have un: "isUnlocked (fetchProperty net ?d' ?c1)"
    by (rule fetchProperty_keeps_unlocked [OF _ _ ex]) (simp_all add: assms(1))
  have ts: "toasts (fetchProperty net ?d' ?c1) = toasts ?c1" by (rule fetchProperty_toasts)
  from rs un ts show ?thesis unfolding pg by simp
qed

theorem unlock_stands_witness:
  "reservations (snd (handlePaymentSuccess all_ok decrement_rooms_undefined sample_page sample_db))
     = [\<lparr>r_id = 1, student_id = 1, property_id = 10, r_payment_status = paid,
         unlock_granted = True\<rparr>]
   \<and> isUnlocked (fst (handlePaymentSuccess all_ok decrement_rooms_undefined sample_page sample_db))
   \<and> rooms_available_of 10
        (snd (handlePaymentSuccess all_ok decrement_rooms_undefined sample_page sample_db))
       = Some 3"
proof -
  have h1: "user sample_page = Some 1" by code_simp
  have h2: "property sample_page = Some sample_property" by code_simp
  have h3: "route_id sample_page = p_id sample_property" by code_simp
  have h4: "check_existing all_ok 1 sample_property sample_db = None" by code_simp
  have h5: "create_reservation all_ok 1 sample_property sample_db = Inr sample_db_paid"
    by code_simp
  have g: "gen_random_uuid [] = Suc 0" by code_simp
  have p: "p_id sample_property = 10" by code_simp
  have r: "reservations sample_db = []" by code_simp
  have zero: "rooms_available_of 10
        (snd (handlePaymentSuccess all_ok decrement_rooms_undefined sample_page sample_db))
       = Some 3"
    by code_simp
  from unlock_stands [OF h1 h2 h3 h4 h5, of decrement_rooms_undefined] zero
  show ?thesis by (simp add: g p r)
qed

section \<open>Where the code departs from the specification\<close>

text \<open>
  Claim C1. A duplicate payment callback is to leave exactly one reservation and
  exactly one decrement of \<^verbatim>\<open>rooms_available\<close>. The code leaves one reservation,
  and the second run changes nothing; but the first run does not lower the counter by
  one. For the student the insert trigger and both updates of the handler pass
  through the update policy of \<^verbatim>\<open>properties\<close> and touch no row: 3 stays 3. For a
  principal whom the policy admits (the property's landlord) the trigger and the
  handler's second write both take effect: 3 becomes 1, and 0 if \<^verbatim>\<open>decrement_rooms\<close>
  is the spec's conditional decrement.
\<close>

theorem duplicate_callback_counter:
  "length (reservations_of 1 10
      (snd (duplicate_callback all_ok decrement_rooms_undefined sample_page sample_db))) = 1
   \<and> rooms_available_of 10 sample_db = Some 3
   \<and> rooms_available_of 10
        (snd (duplicate_callback all_ok decrement_rooms_undefined sample_page sample_db)) = Some 3
   \<and> length (reservations_of 9 10
        (snd (duplicate_callback all_ok decrement_rooms_undefined owner_page sample_db))) = 1
   \<and> rooms_available_of 10
        (snd (duplicate_callback all_ok decrement_rooms_undefined owner_page sample_db)) = Some 1
   \<and> rooms_available_of 10
        (snd (duplicate_callback all_ok decrement_rooms_conditional owner_page sample_db)) = Some 0"
  by code_simp

text \<open>
  Claim C2. The counter is to be lowered by one conditional update at the database and
  never by a read-then-write of the application. The handler writes
  \<^verbatim>\<open>Math.max(0, property.rooms_available - 1)\<close> from the page's copy and then
  \<^verbatim>\<open>Math.max(0, fresh - 1)\<close> from a fresh read. With no room left in the database
  and a page that still shows 3, the first write of a principal whom the update policy
  admits sets the counter to 2 and the second to 1: the unlock raises it from 0 to 1.
  For the student neither these writes nor the trigger touch a row, and the counter is
  not lowered at all. It never leaves the range from 0 to \<^verbatim>\<open>total_rooms\<close>.
\<close>

theorem unlock_counter_writes:
  "rooms_available_of 10 sample_db_booked = Some 0
   \<and> map_option rooms_available (property owner_page) = Some 3
   \<and> rooms_available_of 10 (reduce_available_rooms all_ok 9 sample_property sample_db_booked)
       = Some 2
   \<and> rooms_available_of 10
        (snd (handlePaymentSuccess all_ok decrement_rooms_undefined owner_page sample_db_booked))
       = Some 1
   \<and> rooms_available_of 10
        (snd (handlePaymentSuccess all_ok decrement_rooms_undefined sample_page sample_db))
       = Some 3"
  by code_simp

text \<open>
  Claim C4. A refund of a paid reservation is to set \<^verbatim>\<open>payment_status\<close> to
  \<^verbatim>\<open>refunded\<close> and to raise \<^verbatim>\<open>rooms_available\<close> by one, bounded at
  \<^verbatim>\<open>total_rooms\<close>. The student's refund sets the status, but the trigger's update
  of \<^verbatim>\<open>properties\<close> runs for the student, whom the update policy does not admit:
  the counter stays at 3 of 4. Where the policy admits the caller and every room is
  free already, \<^verbatim>\<open>valid_room_count\<close> rejects the trigger's update and with it the
  refund: the status stays \<^verbatim>\<open>paid\<close>. Only an admitted caller below the bound gets
  the increment.
\<close>

theorem refund_counter:
  "list_all refund_button_shown (reservations sample_db_paid)
   \<and> requestRefund True True 1 1 sample_db_paid =
     ([toast_success ''Refund requested successfully! We will process it within 3-5 business days.''],
      sample_db_paid\<lparr>reservations :=
        [\<lparr>r_id = 1, student_id = 1, property_id = 10, r_payment_status = refunded,
          unlock_granted = True\<rparr>]\<rparr>)
   \<and> rooms_available_of 10 sample_db_paid = Some 3
   \<and> rooms_available_of 10 (snd (requestRefund True True 1 1 sample_db_paid)) = Some 3
   \<and> rooms_available_of 10 sample_db_own_full = Some 4
   \<and> requestRefund True True 9 1 sample_db_own_full =
       ([toast_error ''Failed to request refund''], sample_db_own_full)
   \<and> rooms_available_of 10 (snd (requestRefund True True 9 1 sample_db_own)) = Some 4"
  by code_simp

text \<open>
  Claim C6. An insert rejected by \<^verbatim>\<open>UNIQUE(student_id, property_id)\<close> is to be
  treated as "already reserved". The handler throws every error of the insert to its
  \<^verbatim>\<open>catch\<close>: when the reservation exists and the query for it was lost (or came
  before a concurrent insert), the insert fails with the uniqueness violation, the
  page shows "Payment processed but failed to unlock property. Please contact
  support." and stays locked. The branch for an existing reservation, a few lines
  above, shows "You have already unlocked this property." and unlocks the page.
\<close>

theorem duplicate_insert_reported_as_failure:
  "create_reservation all_ok 1 sample_property sample_db_paid = Inl unique_violation
   \<and> handlePaymentSuccess existing_lost decrement_rooms_undefined sample_page sample_db_paid =
       (sample_page\<lparr>toasts :=
          [toast_error ''Payment processed but failed to unlock property. Please contact support.'']\<rparr>,
        sample_db_paid)
   \<and> isUnlocked (fst (handlePaymentSuccess existing_lost decrement_rooms_undefined
                         sample_page sample_db_paid)) = False
   \<and> handlePaymentSuccess all_ok decrement_rooms_undefined sample_page sample_db_paid =
       (sample_page\<lparr>toasts := [toast_plain ''You have already unlocked this property.''],
          isUnlocked := True\<rparr>,
        sample_db_paid)"
  by code_simp

section \<open>The visibility gate\<close>

lemma select_property_row_state [simp]:
  "select_property_row net d (c\<lparr>loading := l, error := e\<rparr>) = select_property_row net d c"
  by (simp add: select_property_row_def)

lemma select_landlord_row_state [simp]:
  "select_landlord_row net d (c\<lparr>loading := l, error := e\<rparr>) pr = select_landlord_row net d c pr"
  by (simp add: select_landlord_row_def)

lemma select_unlock_row_state [simp]:
  "select_unlock_row net d (c\<lparr>loading := l, error := e\<rparr>) uid = select_unlock_row net d c uid"
  by (simp add: select_unlock_row_def)

lemma maybeSingle_Some_mem: "maybeSingle rows = Inr (Some r) \<Longrightarrow> r \<in> set rows"
  by (auto simp: maybeSingle_def split: list.splits)

lemma select_property_row_mem:
  "select_property_row net d c = Inr (Some pr) \<Longrightarrow> pr \<in> set (properties d)"
  by (auto simp: select_property_row_def select_properties_def Let_def
      split: if_splits dest!: maybeSingle_Some_mem)

lemma select_unlock_row_Some:
  "select_unlock_row net d c uid = Inr (Some r) \<Longrightarrow> unlocked_reservation_exists uid (route_id c) d"
  by (auto simp: select_unlock_row_def select_reservations_def unlocked_reservation_exists_def
      list_ex_iff split: if_splits dest!: maybeSingle_Some_mem)

lemma unique_pair_filter:
  "distinct (map (\<lambda>r. (student_id r, property_id r)) rs) \<Longrightarrow>
   length (filter (\<lambda>r. (student_id r = s \<and> property_id r = p \<and> Q r) \<and> R r) rs) \<le> 1"
proof (induction rs)
  case Nil
  then show ?case by simp
next
  case (Cons x rs)
  show ?case
  proof (cases "student_id x = s \<and> property_id x = p")
    case True
    with Cons.prems have "\<forall>r\<in>set rs. \<not> (student_id r = s \<and> property_id r = p)"
      by (auto simp: image_iff)
    then have "filter (\<lambda>r. (student_id r = s \<and> property_id r = p \<and> Q r) \<and> R r) rs = []"
      by (auto simp: filter_empty_conv)
    then show ?thesis by simp
  next
    case False
    with Cons show ?thesis by auto
  qed
qed

lemma maybeSingle_short:
  "length rows \<le> 1 \<Longrightarrow> rows \<noteq> [] \<Longrightarrow> \<exists>r. maybeSingle rows = Inr (Some r)"
  by (cases rows) (auto simp: maybeSingle_def split: list.splits)

lemma select_unlock_row_exists:
  assumes "reservation_keys_valid d" and "unlocked_reservation_exists uid (route_id c) d"
    and "net Select_unlock"
  shows "\<exists>r. select_unlock_row net d c uid = Inr (Some r)"
proof -
  let ?rows = "select_reservations uid
             (\<lambda>r. student_id r = uid \<and> property_id r = route_id c \<and> unlock_granted r = True) d"
  from assms(1) have "length ?rows \<le> 1"
    unfolding select_reservations_def reservation_keys_valid_def
    using unique_pair_filter [of "reservations d" uid "route_id c" "\<lambda>r. unlock_granted r = True"
        "\<lambda>r. reservations_select_policy uid r"]
    by simp
  moreover from assms(2) have "?rows \<noteq> []"
    by (auto simp: select_reservations_def reservations_select_policy_def
        unlocked_reservation_exists_def list_ex_iff filter_empty_conv)
  ultimately show ?thesis using assms(3)
    by (simp add: select_unlock_row_def maybeSingle_short)
qed

lemma maybeSingle_Inl_mem: "maybeSingle rows = Inl e \<Longrightarrow> \<exists>r. r \<in> set rows"
  by (auto simp: maybeSingle_def split: list.splits)

lemma select_unlock_row_Inl:
  "select_unlock_row net d c uid = Inl e \<Longrightarrow> net Select_unlock
     \<Longrightarrow> unlocked_reservation_exists uid (route_id c) d"
  by (auto simp: select_unlock_row_def select_reservations_def unlocked_reservation_exists_def
      list_ex_iff dest!: maybeSingle_Inl_mem)

lemma fetchProperty_found:
  assumes "user c = Some uid" and "select_property_row net d c = Inr (Some pr)"
  shows "property (fetchProperty net d c) = Some pr"
    and "loading (fetchProperty net d c) = False"
    and "error (fetchProperty net d c) = None"
    and "select_landlord_row net d c pr = Inr l \<Longrightarrow> landlord (fetchProperty net d c) = Some l"
    and "select_unlock_row net d c uid = Inr data \<Longrightarrow>
           isUnlocked (fetchProperty net d c) = (data \<noteq> None)"
    and "select_unlock_row net d c uid = Inl e \<Longrightarrow>
           isUnlocked (fetchProperty net d c) = isUnlocked c"
    and "select_landlord_row net d c pr = Inl e' \<Longrightarrow>
           landlord (fetchProperty net d c) = landlord c"
    and "user (fetchProperty net d c) = Some uid"
  using assms by (simp_all add: fetchProperty_def Let_def split: sum.splits option.splits)

lemma fetchProperty_not_found:
  assumes "\<forall>pr. select_property_row net d c \<noteq> Inr (Some pr)"
  shows "render (fetchProperty net d c) = None"
  using assms
  by (auto simp: fetchProperty_def Let_def render_def split: sum.splits option.splits)

lemma render_locked:
  "\<not> isUnlocked c \<Longrightarrow> render c = Some v \<Longrightarrow> \<not> shows_gated_details v"
  by (auto simp: render_def shows_gated_details_def split: if_splits option.splits)

lemma render_unlocked:
  assumes "isUnlocked c" and "property c = Some pr" and "\<not> loading c" and "error c = None"
    and "user c = Some uid"
  shows "\<exists>v. render c = Some v
           \<and> shown_detailed_location v
               = (if detailed_location pr \<noteq> [] then Some (detailed_location pr) else None)
           \<and> shown_video v
               = (case video_url pr of None \<Rightarrow> None | Some u \<Rightarrow> if u \<noteq> [] then Some u else None)
           \<and> shown_sidebar v
               = (if rooms_available pr = 0 then Fully_Booked
                  else case landlord c of
                         Some l \<Rightarrow> Landlord_Contact (u_name l) (u_email l) (u_phone l)
                       | None \<Rightarrow> Only_students)"
  using assms by (simp add: render_def split: option.splits)

text \<open>
  Claim C5, as stated: the detailed location, the landlord's email and phone and the
  video are in the response to a student's read only if an unlocked reservation
  exists; and a student with one always receives them. Both fail. The student of the
  sample database has no reservation, and \<open>fetchProperty\<close> puts the detailed
  location, the video's address and the landlord's email and phone into the page's
  state: the queries select them for every reader. A page that was unlocked before
  goes on showing the detailed location to that student when the query for the unlock
  is lost. And with an unlocked reservation of a property that has no room left, the
  sidebar shows "Fully Booked" in place of the landlord's contact.
\<close>

theorem response_not_gated:
  "\<not> unlocked_reservation_exists 1 10 sample_db
   \<and> map_option detailed_location (property (fetchProperty all_ok sample_db fresh_page))
       = Some ''No. 15 University Road, Opposite LASU Main Gate''
   \<and> map_option video_url (property (fetchProperty all_ok sample_db fresh_page))
       = Some (Some ''tour.mp4'')
   \<and> map_option u_email (landlord (fetchProperty all_ok sample_db fresh_page))
       = Some ''landlord@example.com''
   \<and> map_option u_phone (landlord (fetchProperty all_ok sample_db fresh_page))
       = Some (Some ''+2348012345678'')
   \<and> map_option shown_detailed_location (render (fetchProperty unlock_lost sample_db stale_page))
       = Some (Some ''No. 15 University Road, Opposite LASU Main Gate'')
   \<and> unlocked_reservation_exists 1 10 sample_db_paid_booked
   \<and> map_option shown_sidebar (render (fetchProperty all_ok sample_db_paid_booked fresh_page))
       = Some Fully_Booked"
  by code_simp

text \<open>
  Claim C5, amended. For a signed-in user whose page is not already unlocked, or whose
  query for the unlock gets through, the response of \<open>fetchProperty\<close> carries the
  stored row of the property (with \<^verbatim>\<open>detailed_location\<close> and \<^verbatim>\<open>video_url\<close>) and
  the landlord's row whenever the queries find them, whatever reservations exist. The
  page shows the detailed location, the video or the landlord's contact only if a
  reservation of this user and property with \<^verbatim>\<open>unlock_granted = true\<close> exists.
  When one exists (and the uniqueness key holds, the property is found and the query
  for the unlock is answered), the page shows the detailed location if it is not
  empty, the video if there is one, and in the sidebar the name, email and phone of
  the landlord that the query returned, unless the property has no room left: then
  the sidebar reads "Fully Booked". When the query for the landlord fails, the sidebar
  shows the landlord that the page held before, if any.
\<close>

theorem visibility_gate:
  assumes "user c = Some uid" and "net Select_unlock \<or> \<not> isUnlocked c"
  shows "(\<forall>pr. select_property_row net d c = Inr (Some pr)
            \<longrightarrow> property (fetchProperty net d c) = Some pr \<and> pr \<in> set (properties d))
       \<and> (\<forall>pr l. select_property_row net d c = Inr (Some pr)
              \<and> select_landlord_row net d c pr = Inr l
            \<longrightarrow> landlord (fetchProperty net d c) = Some l)
       \<and> (\<forall>v. render (fetchProperty net d c) = Some v \<and> shows_gated_details v
            \<longrightarrow> unlocked_reservation_exists uid (route_id c) d)
       \<and> (\<forall>pr. reservation_keys_valid d \<and> unlocked_reservation_exists uid (route_id c) d
              \<and> net Select_unlock \<and> select_property_row net d c = Inr (Some pr)
            \<longrightarrow> (\<exists>v. render (fetchProperty net d c) = Some v
                   \<and> shown_detailed_location v
                       = (if detailed_location pr \<noteq> [] then Some (detailed_location pr) else None)
                   \<and> shown_video v
                       = (case video_url pr of None \<Rightarrow> None
                          | Some u \<Rightarrow> if u \<noteq> [] then Some u else None)
                   \<and> shown_sidebar v
                       = (if rooms_available pr = 0 then Fully_Booked
                          else case (case select_landlord_row net d c pr of
                                       Inr l \<Rightarrow> Some l | Inl e \<Rightarrow> landlord c) of
                                 Some l \<Rightarrow> Landlord_Contact (u_name l) (u_email l) (u_phone l)
                               | None \<Rightarrow> Only_students)))"
proof (intro conjI allI impI)
  fix pr assume "select_property_row net d c = Inr (Some pr)"
  then show "property (fetchProperty net d c) = Some pr" "pr \<in> set (properties d)"
    using assms(1) by (simp_all add: fetchProperty_found select_property_row_mem)
next
  fix pr l assume "select_property_row net d c = Inr (Some pr)
              \<and> select_landlord_row net d c pr = Inr l"
  then show "landlord (fetchProperty net d c) = Some l"
    using assms(1) by (simp add: fetchProperty_found)
next
  fix v assume v: "render (fetchProperty net d c) = Some v \<and> shows_gated_details v"
  show "unlocked_reservation_exists uid (route_id c) d"
  proof (cases "\<exists>pr. select_property_row net d c = Inr (Some pr)")
    case False
    with v show ?thesis by (simp add: fetchProperty_not_found)
  next
    case True
    then obtain pr where pr: "select_property_row net d c = Inr (Some pr)" by blast
    from v render_locked have un: "isUnlocked (fetchProperty net d c)" by blast
    show ?thesis
    proof (cases "select_unlock_row net d c uid")
      case (Inl e)
      with fetchProperty_found(6) [OF assms(1) pr] un have "isUnlocked c" by simp
      with assms(2) have "net Select_unlock" by simp
      with Inl show ?thesis by (rule select_unlock_row_Inl)
    next
      case (Inr data)
      with fetchProperty_found(5) [OF assms(1) pr] un obtain r where "data = Some r" by auto
      with Inr show ?thesis by (simp add: select_unlock_row_Some)
    qed
  qed
next
  fix pr assume a: "reservation_keys_valid d \<and> unlocked_reservation_exists uid (route_id c) d
              \<and> net Select_unlock \<and> select_property_row net d c = Inr (Some pr)"
  then obtain r where r: "select_unlock_row net d c uid = Inr (Some r)"
    using select_unlock_row_exists by blast
  from a have pr: "select_property_row net d c = Inr (Some pr)" by simp
  have un: "isUnlocked (fetchProperty net d c)"
    using fetchProperty_found(5) [OF assms(1) pr r] by simp
  have l: "landlord (fetchProperty net d c)
             = (case select_landlord_row net d c pr of Inr l \<Rightarrow> Some l | Inl e \<Rightarrow> landlord c)"
    using fetchProperty_found(4,7) [OF assms(1) pr] by (simp split: sum.splits)
  note f = fetchProperty_found(1-3,8) [OF assms(1) pr]
  have nl: "\<not> loading (fetchProperty net d c)" using f(2) by simp
  from render_unlocked [OF un f(1) nl f(3) f(4)]
  show "\<exists>v. render (fetchProperty net d c) = Some v
                   \<and> shown_detailed_location v
                       = (if detailed_location pr \<noteq> [] then Some (detailed_location pr) else None)
                   \<and> shown_video v
                       = (case video_url pr of None \<Rightarrow> None
                          | Some u \<Rightarrow> if u \<noteq> [] then Some u else None)
                   \<and> shown_sidebar v
                       = (if rooms_available pr = 0 then Fully_Booked
                          else case (case select_landlord_row net d c pr of
                                       Inr l \<Rightarrow> Some l | Inl e \<Rightarrow> landlord c) of
                                 Some l \<Rightarrow> Landlord_Contact (u_name l) (u_email l) (u_phone l)
                               | None \<Rightarrow> Only_students)"
    unfolding l .
qed

theorem visibility_gate_witness:
  "unlocked_reservation_exists 1 10 sample_db_paid
   \<and> (\<exists>v. render (fetchProperty all_ok sample_db_paid fresh_page) = Some v
          \<and> shown_detailed_location v = Some ''No. 15 University Road, Opposite LASU Main Gate''
          \<and> shown_video v = Some ''tour.mp4''
          \<and> shown_sidebar v
              = Landlord_Contact ''Sample Landlord'' ''landlord@example.com'' (Some ''+2348012345678''))
   \<and> property (fetchProperty all_ok sample_db fresh_page) = Some sample_property
   \<and> render (fetchProperty all_ok sample_db fresh_page)
       = Some \<lparr>shown_detailed_location = None, shown_video = None,
               shown_sidebar = Unlock_Full_Details (Some 450)\<rparr>"
proof -
  have h1: "user fresh_page = Some 1" by code_simp
  have h2: "all_ok Select_unlock \<or> \<not> isUnlocked fresh_page" by code_simp
  have k: "reservation_keys_valid sample_db_paid" by code_simp
  have e: "unlocked_reservation_exists 1 10 sample_db_paid" by code_simp
  have rt: "route_id fresh_page = 10" by code_simp
  have n: "all_ok Select_unlock" by code_simp
  have q: "select_property_row all_ok sample_db_paid fresh_page = Inr (Some sample_property)"
    by code_simp
  have ql: "select_landlord_row all_ok sample_db_paid fresh_page sample_property
              = Inr sample_landlord"
    by code_simp
  have q0: "select_property_row all_ok sample_db fresh_page = Inr (Some sample_property)"
    by code_simp
  have dl: "detailed_location sample_property = ''No. 15 University Road, Opposite LASU Main Gate''"
    by code_simp
  have vu: "video_url sample_property = Some ''tour.mp4''" by code_simp
  have ra: "rooms_available sample_property = 3" by code_simp
  have ln: "u_name sample_landlord = ''Sample Landlord''" by code_simp
  have le: "u_email sample_landlord = ''landlord@example.com''" by code_simp
  have lp: "u_phone sample_landlord = Some ''+2348012345678''" by code_simp
  from visibility_gate [where net = all_ok and d = sample_db_paid, OF h1 h2] k e n q rt
  have "\<exists>v. render (fetchProperty all_ok sample_db_paid fresh_page) = Some v
          \<and> shown_detailed_location v
              = (if detailed_location sample_property \<noteq> []
                 then Some (detailed_location sample_property) else None)
          \<and> shown_video v
              = (case video_url sample_property of None \<Rightarrow> None
                 | Some u \<Rightarrow> if u \<noteq> [] then Some u else None)
          \<and> shown_sidebar v
              = (if rooms_available sample_property = 0 then Fully_Booked
                 else case (case select_landlord_row all_ok sample_db_paid fresh_page sample_property of
                              Inr l \<Rightarrow> Some l | Inl e \<Rightarrow> landlord fresh_page) of
                        Some l \<Rightarrow> Landlord_Contact (u_name l) (u_email l) (u_phone l)
                      | None \<Rightarrow> Only_students)"
    by simp
  then have shown: "\<exists>v. render (fetchProperty all_ok sample_db_paid fresh_page) = Some v
          \<and> shown_detailed_location v = Some ''No. 15 University Road, Opposite LASU Main Gate''
          \<and> shown_video v = Some ''tour.mp4''
          \<and> shown_sidebar v
              = Landlord_Contact ''Sample Landlord'' ''landlord@example.com'' (Some ''+2348012345678'')"
    by (simp add: dl vu ra ql ln le lp)
  from visibility_gate [where net = all_ok and d = sample_db, OF h1 h2] q0
  have resp: "property (fetchProperty all_ok sample_db fresh_page) = Some sample_property"
    by blast
  have locked: "render (fetchProperty all_ok sample_db fresh_page)
       = Some \<lparr>shown_detailed_location = None, shown_video = None,
               shown_sidebar = Unlock_Full_Details (Some 450)\<rparr>"
    by code_simp
  from e shown resp locked show ?thesis by blast
qed

section \<open>Further properties of the unlock and the refund\<close>

lemma update_properties_denied:
  "\<forall>p\<in>set ps. landlord_id p \<noteq> a \<Longrightarrow> update_properties a wh f ps = Inr ps"
  by (simp add: update_properties_Inr properties_update_policy_def map_idI)

lemma insert_reservation_denied:
  assumes "\<forall>p\<in>set (properties d). landlord_id p \<noteq> a"
    and "insert_reservation a sid pid st ug d = Inr d1"
  shows "properties d1 = properties d"
  using assms
  by (auto simp: insert_reservation_def Let_def handle_reservation_insert_def
      update_properties_denied split: if_splits sum.splits)

lemma reduce_available_rooms_denied:
  "\<forall>p\<in>set (properties d). landlord_id p \<noteq> a
     \<Longrightarrow> reduce_available_rooms net a pr d = d"
  by (simp add: reduce_available_rooms_def update_properties_denied)

lemma update_new_rooms_denied:
  "\<forall>p\<in>set (properties d). landlord_id p \<noteq> a
     \<Longrightarrow> update_new_rooms net a pr d = d"
  by (simp add: update_new_rooms_def Let_def update_properties_denied)

lemma call_decrement_rooms_undefined:
  "call_decrement_rooms net decrement_rooms_undefined a pr d = d"
  by (simp add: call_decrement_rooms_def rpc_decrement_rooms_def decrement_rooms_undefined_def)

lemma handlePaymentSuccess_denied:
  assumes "\<forall>p\<in>set (properties d). landlord_id p \<noteq> uid" and "user c = Some uid"
  shows "properties (snd (handlePaymentSuccess net decrement_rooms_undefined c d)) = properties d"
proof (cases "property c")
  case None
  then show ?thesis by (simp add: handlePaymentSuccess_db_idle)
next
  case p: (Some pr)
  note db = handlePaymentSuccess_db [OF assms(2) p]
  show ?thesis
  proof (cases "check_existing net uid pr d")
    case (Some r)
    then show ?thesis by (simp add: db)
  next
    case None
    show ?thesis
    proof (cases "create_reservation net uid pr d")
      case (Inl e)
      with None show ?thesis by (simp add: db)
    next
      case (Inr d1)
      then have same: "properties d1 = properties d"
        using insert_reservation_denied [OF assms(1)]
        by (auto simp: create_reservation_def split: if_splits)
      with assms(1) have den: "\<forall>p\<in>set (properties d1). landlord_id p \<noteq> uid" by simp
      from None Inr show ?thesis
        by (simp add: db call_decrement_rooms_undefined reduce_available_rooms_denied [OF den]
            update_new_rooms_denied [OF den] same)
    qed
  qed
qed

lemma update_payment_status_rows_denied:
  "\<forall>p\<in>set ps. landlord_id p \<noteq> a \<Longrightarrow>
   update_payment_status_rows a rid st rs ps = Inr (rs', ps') \<Longrightarrow> ps' = ps"
proof (induction rs arbitrary: rs' ps')
  case Nil
  then show ?case by simp
next
  case (Cons OLD rs)
  then show ?case
    by (auto simp: Let_def handle_reservation_update_def update_properties_denied
        split: if_splits sum.splits prod.splits)
qed

lemma requestRefund_denied:
  assumes "\<forall>p\<in>set (properties d). landlord_id p \<noteq> a"
  shows "properties (snd (requestRefund cf ok a rid d)) = properties d"
  using requestRefund_cases [of cf ok a rid d] update_payment_status_rows_denied [OF assms]
  by (auto dest!: update_payment_status_Inr)

text \<open>
  A principal who is the landlord of no property changes no row of \<^verbatim>\<open>properties\<close>:
  neither by an unlock (with \<^verbatim>\<open>decrement_rooms\<close> undefined, as in the migrations) nor
  by a refund. The insert trigger, the update trigger and the handler's own updates all
  pass through the policy \<^verbatim>\<open>landlord_id = auth.uid()\<close>.
\<close>

theorem non_landlord_leaves_counters:
  assumes "\<forall>p\<in>set (properties d). landlord_id p \<noteq> uid" and "user c = Some uid"
  shows "properties (snd (handlePaymentSuccess net decrement_rooms_undefined c d)) = properties d
         \<and> properties (snd (requestRefund confirmed net_ok uid reservationId d)) = properties d"
  using handlePaymentSuccess_denied [OF assms] requestRefund_denied [OF assms(1)] by simp

theorem non_landlord_leaves_counters_witness:
  "properties (snd (handlePaymentSuccess all_ok decrement_rooms_undefined sample_page sample_db))
     = properties sample_db
   \<and> properties (snd (requestRefund True True 1 1 sample_db_paid)) = properties sample_db_paid
   \<and> r_payment_status (hd (reservations (snd (requestRefund True True 1 1 sample_db_paid))))
       = refunded"
proof -
  have h1: "\<forall>p\<in>set (properties sample_db). landlord_id p \<noteq> 1" by code_simp
  have h1': "\<forall>p\<in>set (properties sample_db_paid). landlord_id p \<noteq> 1" by code_simp
  have h2: "user sample_page = Some 1" by code_simp
  have st: "r_payment_status (hd (reservations (snd (requestRefund True True 1 1 sample_db_paid))))
       = refunded" by code_simp
  from non_landlord_leaves_counters [OF h1 h2, of all_ok]
    non_landlord_leaves_counters [OF h1' h2, of all_ok True True 1] st
  show ?thesis by blast
qed

lemma check_existing_mem:
  "check_existing net uid pr d = Some r \<Longrightarrow> r \<in> set (reservations_of uid (p_id pr) d)"
  by (auto simp: check_existing_def select_reservations_def reservations_of_def
      split: if_splits sum.splits dest!: maybeSingle_Some_mem)

lemma create_reservation_existing:
  "reservations_of uid (p_id pr) d \<noteq> [] \<Longrightarrow> \<exists>e. create_reservation net uid pr d = Inl e"
  by (auto simp: create_reservation_def insert_reservation_def Let_def reservations_of_def
      list_ex_iff filter_empty_conv)

lemma handlePaymentSuccess_existing:
  assumes "user c = Some uid" and "property c = Some pr"
    and "reservations_of uid (p_id pr) d \<noteq> []"
  shows "snd (handlePaymentSuccess net decrement_rooms c d) = d"
proof (cases "check_existing net uid pr d")
  case None
  from create_reservation_existing [OF assms(3)] obtain e where
    "create_reservation net uid pr d = Inl e" by blast
  with None show ?thesis by (simp add: handlePaymentSuccess_db [OF assms(1,2)])
next
  case (Some r)
  then show ?thesis by (simp add: handlePaymentSuccess_db [OF assms(1,2)])
qed


lemma fold_max_ge: "(a::nat) \<le> fold max xs a \<and> (\<forall>x\<in>set xs. x \<le> fold max xs a)"
proof (induction xs arbitrary: a)
  case Nil
  then show ?case by simp
next
  case (Cons y ys)
  from Cons.IH [of "max y a"] show ?case by auto
qed

lemma gen_random_uuid_fresh: "gen_random_uuid rs \<notin> r_id ` set rs"
proof
  assume "gen_random_uuid rs \<in> r_id ` set rs"
  then have "gen_random_uuid rs \<in> set (map r_id rs)" by simp
  with fold_max_ge [of 0 "map r_id rs"] have "gen_random_uuid rs \<le> fold max (map r_id rs) 0"
    by blast
  then show False by (simp add: gen_random_uuid_def)
qed

lemma insert_reservation_keys:
  assumes "reservation_keys_valid d" and "insert_reservation a sid pid st ug d = Inr d1"
  shows "reservation_keys_valid d1"
proof -
  from insert_reservation_Inr [OF assms(2)] have
    rs: "reservations d1 = reservations d @
           [\<lparr>r_id = gen_random_uuid (reservations d), student_id = sid, property_id = pid,
             r_payment_status = st, unlock_granted = ug\<rparr>]"
    and new: "\<not> list_ex (\<lambda>r. student_id r = sid \<and> property_id r = pid) (reservations d)"
    by simp_all
  from new have "(sid, pid) \<notin> (\<lambda>r. (student_id r, property_id r)) ` set (reservations d)"
    by (auto simp: list_ex_iff)
  with assms(1) gen_random_uuid_fresh [of "reservations d"] show ?thesis
    by (simp add: reservation_keys_valid_def rs)
qed

lemma handlePaymentSuccess_keys:
  assumes "reservation_keys_valid d"
  shows "reservation_keys_valid (snd (handlePaymentSuccess net rpc c d))"
proof (cases "user c")
  case None
  then show ?thesis using assms by (simp add: handlePaymentSuccess_db_idle)
next
  case u: (Some uid)
  show ?thesis
  proof (cases "property c")
    case None
    then show ?thesis using assms by (simp add: handlePaymentSuccess_db_idle)
  next
    case p: (Some pr)
    note db = handlePaymentSuccess_db [OF u p]
    show ?thesis
    proof (cases "check_existing net uid pr d")
      case (Some r)
      then show ?thesis using assms by (simp add: db)
    next
      case None
      show ?thesis
      proof (cases "create_reservation net uid pr d")
        case (Inl e)
        with None show ?thesis using assms by (simp add: db)
      next
        case (Inr d1)
        then have "reservation_keys_valid d1"
          using insert_reservation_keys [OF assms]
          by (auto simp: create_reservation_def split: if_splits)
        with None Inr show ?thesis
          by (simp add: db reservation_keys_valid_def update_new_rooms_frame
              call_decrement_rooms_frame reduce_available_rooms_frame)
      qed
    qed
  qed
qed

lemma reservations_of_unique:
  assumes "reservation_keys_valid d"
  shows "length (reservations_of sid pid d) \<le> 1"
  using assms unique_pair_filter [of "reservations d" sid pid "\<lambda>r. True" "\<lambda>r. True"]
  by (simp add: reservations_of_def reservation_keys_valid_def)

lemma fetchProperty_user: "user (fetchProperty net d c) = user c"
  by (simp add: fetchProperty_def Let_def split: sum.splits option.splits)

lemma select_property_row_id:
  "select_property_row net d c = Inr (Some pr) \<Longrightarrow> p_id pr = route_id c"
  by (auto simp: select_property_row_def select_properties_def Let_def
      split: if_splits dest!: maybeSingle_Some_mem)

lemma fetchProperty_property_id:
  assumes "property c = Some pr" and "route_id c = p_id pr"
  shows "\<exists>pr'. property (fetchProperty net d c) = Some pr' \<and> p_id pr' = p_id pr"
proof (cases "select_property_row net d c")
  case (Inl e)
  with assms show ?thesis by (simp add: fetchProperty_def Let_def)
next
  case (Inr data)
  show ?thesis
  proof (cases data)
    case None
    with Inr assms show ?thesis by (simp add: fetchProperty_def Let_def)
  next
    case (Some x)
    with Inr have "p_id x = route_id c" by (simp add: select_property_row_id)
    with Some Inr assms show ?thesis
      by (simp add: fetchProperty_def Let_def split: sum.splits option.splits)
  qed
qed

lemma handlePaymentSuccess_page_keeps:
  assumes "user c = Some uid" and "property c = Some pr" and "route_id c = p_id pr"
  shows "user (fst (handlePaymentSuccess net rpc c d)) = Some uid
         \<and> (\<exists>pr'. property (fst (handlePaymentSuccess net rpc c d)) = Some pr' \<and> p_id pr' = p_id pr)"
proof (cases "check_existing net uid pr d")
  case (Some r)
  with assms show ?thesis by (simp add: handlePaymentSuccess_def Let_def)
next
  case None
  show ?thesis
  proof (cases "create_reservation net uid pr d")
    case (Inl e)
    with None assms show ?thesis by (simp add: handlePaymentSuccess_def Let_def)
  next
    case (Inr d1)
    let ?c1 = "c\<lparr>paymentLoading := True, isUnlocked := True,
                 toasts := toasts c @
                   [toast_success ''Property unlocked! You can now view full details and contact the landlord.'']\<rparr>"
    have pg: "fst (handlePaymentSuccess net rpc c d)
              = (fetchProperty net (snd (handlePaymentSuccess net rpc c d)) ?c1)\<lparr>paymentLoading := False\<rparr>"
      by (rule handlePaymentSuccess_page [OF assms(1,2) None Inr])
    have "property ?c1 = Some pr" "route_id ?c1 = p_id pr" using assms by simp_all
    from fetchProperty_property_id [OF this] assms(1) show ?thesis
      unfolding pg by (simp add: fetchProperty_user)
  qed
qed

text \<open>
  Once a reservation of the user for the property exists, a run of the handler changes
  nothing in the database, whatever requests fail: either the query finds the row, or
  the insert is rejected.
\<close>

theorem second_callback_changes_nothing:
  assumes "user c = Some uid" and "property c = Some pr"
    and "reservations_of uid (p_id pr) d \<noteq> []"
  shows "snd (handlePaymentSuccess net decrement_rooms c d) = d"
  by (rule handlePaymentSuccess_existing [OF assms])

theorem second_callback_changes_nothing_witness:
  "snd (handlePaymentSuccess existing_lost decrement_rooms_conditional owner_page sample_db_own)
     = sample_db_own"
proof -
  have h1: "user owner_page = Some 9" by code_simp
  have h2: "property owner_page = Some sample_property" by code_simp
  have h3: "reservations_of 9 (p_id sample_property) sample_db_own \<noteq> []" by code_simp
  from second_callback_changes_nothing [OF h1 h2 h3] show ?thesis .
qed

text \<open>
  A duplicate callback after a run that left a reservation: the second run leaves the
  database as the first left it, and the pair has exactly one reservation row (the
  keys of \<^verbatim>\<open>reservations\<close> assumed before the first run).
\<close>

theorem duplicate_callback_one_row:
  assumes "reservation_keys_valid d"
    and "user c = Some uid" and "property c = Some pr" and "route_id c = p_id pr"
    and "reservations_of uid (p_id pr) (snd (handlePaymentSuccess net decrement_rooms c d)) \<noteq> []"
  shows "snd (duplicate_callback net decrement_rooms c d)
           = snd (handlePaymentSuccess net decrement_rooms c d)
         \<and> length (reservations_of uid (p_id pr)
              (snd (duplicate_callback net decrement_rooms c d))) = 1"
proof -
  let ?c1 = "fst (handlePaymentSuccess net decrement_rooms c d)"
  let ?d1 = "snd (handlePaymentSuccess net decrement_rooms c d)"
  from handlePaymentSuccess_page_keeps [OF assms(2-4)] obtain pr' where
    u1: "user ?c1 = Some uid" and p1: "property ?c1 = Some pr'" and id: "p_id pr' = p_id pr"
    by blast
  from assms(5) id have ne: "reservations_of uid (p_id pr') ?d1 \<noteq> []" by simp
  have dup: "snd (duplicate_callback net decrement_rooms c d)
               = snd (handlePaymentSuccess net decrement_rooms ?c1 ?d1)"
    by (simp add: duplicate_callback_def split: prod.splits)
  have same: "snd (duplicate_callback net decrement_rooms c d) = ?d1"
    unfolding dup by (rule handlePaymentSuccess_existing [OF u1 p1 ne])
  have "length (reservations_of uid (p_id pr) ?d1) \<le> 1"
    by (rule reservations_of_unique [OF handlePaymentSuccess_keys [OF assms(1)]])
  with assms(5) have "length (reservations_of uid (p_id pr) ?d1) = 1"
    by (cases "reservations_of uid (p_id pr) ?d1") auto
  with same show ?thesis by simp
qed

theorem duplicate_callback_one_row_witness:
  "snd (duplicate_callback all_ok decrement_rooms_undefined sample_page sample_db)
     = snd (handlePaymentSuccess all_ok decrement_rooms_undefined sample_page sample_db)
   \<and> length (reservations_of 1 10
        (snd (duplicate_callback all_ok decrement_rooms_undefined sample_page sample_db))) = 1"
proof -
  have h1: "reservation_keys_valid sample_db" by code_simp
  have h2: "user sample_page = Some 1" by code_simp
  have h3: "property sample_page = Some sample_property" by code_simp
  have h4: "route_id sample_page = p_id sample_property" by code_simp
  have h5: "reservations_of 1 (p_id sample_property)
      (snd (handlePaymentSuccess all_ok decrement_rooms_undefined sample_page sample_db)) \<noteq> []"
    by code_simp
  have p: "p_id sample_property = 10" by code_simp
  from duplicate_callback_one_row [OF h1 h2 h3 h4 h5] show ?thesis unfolding p by blast
qed

lemma find_update_properties:
  assumes "update_properties a (\<lambda>p. p_id p = pid \<and> W p) f ps = Inr ps'"
    and "find (\<lambda>p. p_id p = pid) ps = Some p0"
    and "\<And>p. p_id (f p) = p_id p"
  shows "find (\<lambda>p. p_id p = pid) ps'
           = Some (if W p0 \<and> properties_update_policy a p0 then f p0 else p0)"
proof -
  from assms(1) have eq: "ps' = map (\<lambda>p. if (p_id p = pid \<and> W p) \<and> properties_update_policy a p
                                        then f p else p) ps"
    by (simp add: update_properties_Inr)
  from assms(2) show ?thesis unfolding eq
  proof (induction ps)
    case Nil
    then show ?case by simp
  next
    case (Cons x xs)
    show ?case
    proof (cases "p_id x = pid")
      case True
      with Cons.prems have "x = p0" by simp
      with True show ?thesis by (simp add: assms(3))
    next
      case False
      with Cons show ?thesis by simp
    qed
  qed
qed

lemma distinct_ids_filter:
  assumes "distinct (map p_id ps)" and "find (\<lambda>p. p_id p = pid) ps = Some p0"
  shows "filter (\<lambda>p. p_id p = pid) ps = [p0]"
  using assms
proof (induction ps)
  case Nil
  then show ?case by simp
next
  case (Cons x xs)
  show ?case
  proof (cases "p_id x = pid")
    case True
    with Cons.prems have "x = p0" and "\<forall>y\<in>set xs. p_id y \<noteq> pid" by (auto simp: image_iff)
    then show ?thesis using True by (simp add: filter_empty_conv)
  next
    case False
    with Cons show ?thesis by simp
  qed
qed

lemma update_properties_ids:
  assumes "update_properties a wh f ps = Inr ps'" and "\<And>p. p_id (f p) = p_id p"
  shows "map p_id ps' = map p_id ps"
  using assms(1) by (auto simp: update_properties_Inr assms(2))


lemma distinct_ids_unique:
  assumes "distinct (map p_id ps)" and "find (\<lambda>p. p_id p = pid) ps = Some p0"
    and "p \<in> set ps" and "p_id p = pid"
  shows "p = p0"
proof -
  from assms(3,4) have "p \<in> set (filter (\<lambda>p. p_id p = pid) ps)" by simp
  with distinct_ids_filter [OF assms(1,2)] show ?thesis by simp
qed

lemma update_properties_one_row:
  assumes "distinct (map p_id ps)" and "find (\<lambda>p. p_id p = pid) ps = Some p0"
    and "\<And>p. p_id (f p) = p_id p"
    and "W p0 \<and> properties_update_policy a p0 \<Longrightarrow> properties_checks (f p0)"
  shows "\<exists>ps'. update_properties a (\<lambda>p. p_id p = pid \<and> W p) f ps = Inr ps'
           \<and> find (\<lambda>p. p_id p = pid) ps'
               = Some (if W p0 \<and> properties_update_policy a p0 then f p0 else p0)
           \<and> distinct (map p_id ps')"
proof -
  let ?ps' = "map (\<lambda>p. if (p_id p = pid \<and> W p) \<and> properties_update_policy a p then f p else p) ps"
  have chk: "\<forall>p\<in>set ps. (p_id p = pid \<and> W p) \<and> properties_update_policy a p
               \<longrightarrow> properties_checks (f p)"
  proof (intro ballI impI)
    fix p assume p: "p \<in> set ps" and h: "(p_id p = pid \<and> W p) \<and> properties_update_policy a p"
    then have "p = p0" using distinct_ids_unique [OF assms(1,2)] by blast
    with h assms(4) show "properties_checks (f p)" by simp
  qed
  then have u: "update_properties a (\<lambda>p. p_id p = pid \<and> W p) f ps = Inr ?ps'"
    by (simp add: update_properties_Inr)
  have "map p_id ?ps' = map p_id ps" by (rule update_properties_ids [OF u assms(3)])
  with assms(1) have "distinct (map p_id ?ps')" by (simp only:)
  with u find_update_properties [OF u assms(2,3)] show ?thesis by blast
qed

lemma update_rooms_one_row:
  assumes "distinct (map p_id ps)" and "find (\<lambda>p. p_id p = pid) ps = Some p0"
    and "properties_update_policy a p0 \<Longrightarrow> properties_checks (p0\<lparr>rooms_available := v\<rparr>)"
  shows "\<exists>ps'. update_properties a (\<lambda>p. p_id p = pid) (\<lambda>p. p\<lparr>rooms_available := v\<rparr>) ps = Inr ps'
           \<and> find (\<lambda>p. p_id p = pid) ps'
               = Some (if properties_update_policy a p0 then p0\<lparr>rooms_available := v\<rparr> else p0)
           \<and> distinct (map p_id ps')"
  using update_properties_one_row [of ps pid p0 "\<lambda>p. p\<lparr>rooms_available := v\<rparr>" "\<lambda>p. True" a]
    assms by simp

lemma checks_rooms:
  "properties_checks p \<Longrightarrow> 0 \<le> v \<Longrightarrow> v \<le> total_rooms p
     \<Longrightarrow> properties_checks (p\<lparr>rooms_available := v\<rparr>)"
  by (simp add: properties_checks_def valid_room_count_def valid_price_def valid_reservation_fee_def)

text \<open>
  For a principal whom the update policy admits, with a page copy that agrees with the
  database, every request answered and \<^verbatim>\<open>decrement_rooms\<close> undefined, a first unlock
  of a property with a free room lowers \<^verbatim>\<open>rooms_available\<close> by two (down to 0 at
  most): once by the insert trigger, and once more by the update that follows the fresh
  read; the update from the page's copy in between repeats the trigger's value.
\<close>

theorem admitted_unlock_lowers_by_two:
  assumes "user c = Some uid" and "property c = Some pr"
    and "property_of (p_id pr) d = Some pr"
    and "landlord_id pr = uid" and "properties_checks pr"
    and "distinct (map p_id (properties d))"
    and "reservations_of uid (p_id pr) d = []"
    and "list_ex (\<lambda>u. u_id u = uid) (users d)"
    and "\<forall>r. net r"
    and "0 < rooms_available pr"
  shows "rooms_available_of (p_id pr)
           (snd (handlePaymentSuccess net decrement_rooms_undefined c d))
         = Some (max 0 (rooms_available pr - 2))"
proof -
  let ?pid = "p_id pr"
  let ?r = "rooms_available pr"
  have pol: "properties_update_policy uid pr"
    using assms(4) by (simp add: properties_update_policy_def)
  have f0: "find (\<lambda>p. p_id p = ?pid) (properties d) = Some pr"
    using assms(3) by (simp add: property_of_def)
  have bounds: "?r \<le> total_rooms pr" "0 \<le> ?r"
    using assms(5) by (simp_all add: properties_checks_def valid_room_count_def)
  \<comment> \<open>the query for an existing reservation finds none\<close>
  have "select_reservations uid (\<lambda>r. student_id r = uid \<and> property_id r = ?pid) d = []"
    using assms(7)
    by (auto simp: select_reservations_def reservations_of_def filter_empty_conv)
  then have ex: "check_existing net uid pr d = None"
    using assms(9) by (simp add: check_existing_def maybeSingle_def)
  \<comment> \<open>the insert and its trigger\<close>
  let ?p1 = "pr\<lparr>rooms_available := ?r - 1\<rparr>"
  have c1: "properties_checks ?p1" using assms(5,10) bounds by (simp add: checks_rooms)
  from update_properties_one_row [OF assms(6) f0, of "\<lambda>p. p\<lparr>rooms_available := rooms_available p - 1\<rparr>"
      "\<lambda>p. rooms_available p > 0" uid] c1 pol assms(10)
  obtain ps1 where
    t: "update_properties uid (\<lambda>p. p_id p = ?pid \<and> rooms_available p > 0)
          (\<lambda>p. p\<lparr>rooms_available := rooms_available p - 1\<rparr>) (properties d) = Inr ps1"
    and f1: "find (\<lambda>p. p_id p = ?pid) ps1 = Some ?p1"
    and d1: "distinct (map p_id ps1)"
    by auto
  have fk: "list_ex (\<lambda>p. p_id p = ?pid) (properties d)"
    using f0 by (auto simp: list_ex_iff find_Some_iff)
  have uq: "\<not> list_ex (\<lambda>r. student_id r = uid \<and> property_id r = ?pid) (reservations d)"
    using assms(7) by (simp add: reservations_of_def list_ex_iff filter_empty_conv)
  let ?NEW = "\<lparr>r_id = gen_random_uuid (reservations d), student_id = uid, property_id = ?pid,
                  r_payment_status = paid, unlock_granted = True\<rparr>"
  let ?d1 = "d\<lparr>properties := ps1, reservations := reservations d @ [?NEW]\<rparr>"
  have cr: "create_reservation net uid pr d = Inr ?d1"
    using assms(8,9) fk uq t
    by (simp add: create_reservation_def insert_reservation_def Let_def
        reservations_insert_policy_def handle_reservation_insert_def)
  \<comment> \<open>the update from the page's copy\<close>
  have pol1: "properties_update_policy uid ?p1"
    using pol by (simp add: properties_update_policy_def)
  have v1: "max 0 (?r - 1) = ?r - 1" using assms(10) by simp
  have c2: "properties_checks (?p1\<lparr>rooms_available := max 0 (?r - 1)\<rparr>)"
    using c1 v1 by simp
  from update_rooms_one_row [OF d1 f1, of uid "max 0 (?r - 1)"] c2 pol1
  obtain ps2 where
    u2: "update_properties uid (\<lambda>p. p_id p = ?pid)
           (\<lambda>p. p\<lparr>rooms_available := max 0 (?r - 1)\<rparr>) ps1 = Inr ps2"
    and f2: "find (\<lambda>p. p_id p = ?pid) ps2 = Some ?p1"
    and d2: "distinct (map p_id ps2)"
    using v1 by auto
  have red: "reduce_available_rooms net uid pr ?d1 = ?d1\<lparr>properties := ps2\<rparr>"
    using assms(9) u2 by (simp add: reduce_available_rooms_def)
  \<comment> \<open>the fresh read and the second update\<close>
  let ?d2 = "?d1\<lparr>properties := ps2\<rparr>"
  have fr: "select_fresh net uid pr ?d2 = Some (?r - 1)"
    using assms(9) distinct_ids_filter [OF d2 f2]
    by (simp add: select_fresh_def select_properties_def properties_select_policy_def single_def)
  have c3: "properties_checks (?p1\<lparr>rooms_available := max 0 (?r - 1 - 1)\<rparr>)"
    using assms(5,10) bounds
    by (simp add: properties_checks_def valid_room_count_def valid_price_def
        valid_reservation_fee_def)
  from update_rooms_one_row [OF d2 f2, of uid "max 0 (?r - 1 - 1)"] c3 pol1
  obtain ps3 where
    u3: "update_properties uid (\<lambda>p. p_id p = ?pid)
           (\<lambda>p. p\<lparr>rooms_available := max 0 (?r - 1 - 1)\<rparr>) ps2 = Inr ps3"
    and f3: "find (\<lambda>p. p_id p = ?pid) ps3 = Some (?p1\<lparr>rooms_available := max 0 (?r - 1 - 1)\<rparr>)"
    by auto
  have upd: "update_new_rooms net uid pr ?d2 = ?d2\<lparr>properties := ps3\<rparr>"
    using assms(9) u3 fr by (simp add: update_new_rooms_def Let_def)
  have "snd (handlePaymentSuccess net decrement_rooms_undefined c d) = ?d2\<lparr>properties := ps3\<rparr>"
    using ex cr red upd
    by (simp add: handlePaymentSuccess_db [OF assms(1,2)] call_decrement_rooms_undefined)
  then show ?thesis
    using f3 by (simp add: rooms_available_of_def property_of_def)
qed

theorem admitted_unlock_lowers_by_two_witness:
  "rooms_available_of 10 sample_db = Some 3
   \<and> rooms_available_of 10
        (snd (handlePaymentSuccess all_ok decrement_rooms_undefined owner_page sample_db)) = Some 1"
proof -
  have h1: "user owner_page = Some 9" by code_simp
  have h2: "property owner_page = Some sample_property" by code_simp
  have h3: "property_of (p_id sample_property) sample_db = Some sample_property" by code_simp
  have h4: "landlord_id sample_property = 9" by code_simp
  have h5: "properties_checks sample_property" by code_simp
  have h6: "distinct (map p_id (properties sample_db))" by code_simp
  have h7: "reservations_of 9 (p_id sample_property) sample_db = []" by code_simp
  have h8: "list_ex (\<lambda>u. u_id u = 9) (users sample_db)" by code_simp
  have h9: "\<forall>r. all_ok r" by (simp add: all_ok_def)
  have h10: "0 < rooms_available sample_property" by code_simp
  have p: "p_id sample_property = 10" by code_simp
  have r: "rooms_available sample_property = 3" by code_simp
  have r0: "rooms_available_of 10 sample_db = Some 3" by code_simp
  from admitted_unlock_lowers_by_two [OF h1 h2 h3 h4 h5 h6 h7 h8 h9 h10] r0
  show ?thesis unfolding p r by simp
qed

section \<open>The multi-step form on the table of the migrations\<close>

text \<open>
  On a table that has only the columns of the migrations' \<^verbatim>\<open>CREATE TABLE\<close>, the
  update of the multi-step form names two columns that do not exist,
  \<^verbatim>\<open>proof_of_ownership\<close> and \<^verbatim>\<open>pending_review\<close>: whatever the form holds and
  whoever sends it, no row is written, and the toast reports the failure with the
  message of the error.
\<close>

theorem MultiStepPropertyForm_update_writes_nothing:
  "MultiStepPropertyForm_update net_ok message properties_columns auth_uid form propertyToEdit d
     = ([toast_error (''Failed to submit property: ''
           @ (if message (if net_ok then undefined_column else request_failed) = []
              then ''Unknown error''
              else message (if net_ok then undefined_column else request_failed)))], d)"
  by (simp add: MultiStepPropertyForm_update_def properties_columns_def
      MultiStepPropertyForm_update_columns_def)

theorem MultiStepPropertyForm_update_writes_nothing_witness:
  "MultiStepPropertyForm_update True no_message properties_columns 9 sample_form 10 sample_db
     = ([toast_error ''Failed to submit property: Unknown error''], sample_db)"
  using MultiStepPropertyForm_update_writes_nothing
    [of True no_message 9 sample_form 10 sample_db]
  by (simp add: no_message_def)

end
